theory Spec2Isabelle
  imports Complex_Main
begin

section \<open>JavaScript numbers\<close>

text \<open>
  Every number of the program is an IEEE-754 binary64 value. The finite ones are
  rationals, so a number is modelled as a \<open>rat\<close> and each arithmetic operation
  as the exact operation followed by \<open>round_double\<close>, rounding to nearest
  with ties to even, with gradual underflow below \<open>2 powi (- 1022)\<close>. Overflow to
  \<open>Infinity\<close> is outside the model: no product or sum of the generator comes
  near \<open>2 powi 1024\<close>. \<open>NaN\<close> appears only as a result of \<open>parseInt\<close>
  and has a constructor of its own in the type \<open>number\<close>.
\<close>

fun log2floor :: "nat \<Rightarrow> nat" where
  "log2floor n = (if n < 2 then 0 else Suc (log2floor (n div 2)))"

declare log2floor.simps [simp del]

text \<open>The binary exponent of a positive rational: the largest \<open>e\<close> with \<open>2 powi e \<le> a\<close>.\<close>

definition floor_log2 :: "rat \<Rightarrow> int" where
  "floor_log2 a =
     (if 1 \<le> a then int (log2floor (nat \<lfloor>a\<rfloor>))
      else - int (Suc (log2floor (nat (\<lceil>1 / a\<rceil> - 1)))))"

definition exponent :: "rat \<Rightarrow> int" where
  "exponent x = max (floor_log2 \<bar>x\<bar>) (- 1022)"

text \<open>The spacing of the doubles around \<open>x\<close>: 53 significant bits.\<close>

definition ulp :: "rat \<Rightarrow> rat" where
  "ulp x = 2 powi (exponent x - 52)"

definition round_half_even :: "rat \<Rightarrow> int" where
  "round_half_even q =
     (let f = \<lfloor>q\<rfloor>; d = q - of_int f
      in if d < 1 / 2 then f
         else if 1 / 2 < d then f + 1
         else if even f then f else f + 1)"

definition round_double :: "rat \<Rightarrow> rat" where
  "round_double x = of_int (round_half_even (x / ulp x)) * ulp x"

text \<open>A numeric literal denotes the double nearest to its decimal value.\<close>

definition js_lit :: "rat \<Rightarrow> rat" where
  "js_lit x = round_double x"

definition js_add :: "rat \<Rightarrow> rat \<Rightarrow> rat" where
  "js_add a b = round_double (a + b)"

definition js_mul :: "rat \<Rightarrow> rat \<Rightarrow> rat" where
  "js_mul a b = round_double (a * b)"

definition js_div :: "rat \<Rightarrow> rat \<Rightarrow> rat" where
  "js_div a b = round_double (a / b)"

text \<open>\<open>Math.floor\<close> is exact: the floor of a double is a double.\<close>

definition Math_floor :: "rat \<Rightarrow> rat" where
  "Math_floor x = of_int \<lfloor>x\<rfloor>"

datatype number = NaN | Num rat

text \<open>
  What \<open>Math.random()\<close> may return: a double that is at least 0 and less than 1.
\<close>

definition Math_random_ok :: "rat \<Rightarrow> bool" where
  "Math_random_ok r \<longleftrightarrow> round_double r = r \<and> 0 \<le> r \<and> r < 1"

section \<open>Strings\<close>

text \<open>
  A string is a list of characters. \<open>decimal\<close> writes a natural number in base
  ten. \<open>Number_toString\<close> is the conversion a template literal applies to a
  number: exact on the integers below \<open>10 ^ 21\<close> and on the halves between them,
  which are the only numbers the program renders; other fractions are written by
  their first twenty decimals.
\<close>

definition digit_char :: "nat \<Rightarrow> char" where
  "digit_char d = ''0123456789'' ! d"

fun decimal :: "nat \<Rightarrow> string" where
  "decimal n = (if n < 10 then [digit_char n] else decimal (n div 10) @ [digit_char (n mod 10)])"

declare decimal.simps [simp del]

fun fraction_digits :: "nat \<Rightarrow> rat \<Rightarrow> string" where
  "fraction_digits 0 f = []"
| "fraction_digits (Suc k) f =
     (if f = 0 then []
      else let t = f * 10; d = nat \<lfloor>t\<rfloor>
           in digit_char d # fraction_digits k (t - of_nat d))"

definition Number_toString :: "rat \<Rightarrow> string" where
  "Number_toString x =
     (let a = \<bar>x\<bar>; n = nat \<lfloor>a\<rfloor>;
          sign = (if x < 0 then ''-'' else [])
      in if a = of_nat n then sign @ decimal n
         else sign @ decimal n @ ''.'' @ fraction_digits 20 (a - of_nat n))"

text \<open>
  \<open>x.toFixed(6)\<close>: the integer \<open>n\<close> nearest to \<open>x * 10 ^ 6\<close>, the larger one
  on a tie, written with six decimals.
\<close>

definition toFixed6 :: "rat \<Rightarrow> string" where
  "toFixed6 x =
     (let a = \<bar>x\<bar>;
          n = nat \<lfloor>a * 10 ^ 6 + 1 / 2\<rfloor>;
          m = decimal n;
          m = (if length m \<le> 6 then replicate (7 - length m) CHR ''0'' @ m else m);
          k = length m
      in (if x < 0 then ''-'' else []) @ take (k - 6) m @ ''.'' @ drop (k - 6) m)"

definition toLowerCase :: "string \<Rightarrow> string" where
  "toLowerCase s =
     map (\<lambda>c. case map_of (zip ''ABCDEFGHIJKLMNOPQRSTUVWXYZ'' ''abcdefghijklmnopqrstuvwxyz'') c of
                 None \<Rightarrow> c | Some l \<Rightarrow> l) s"

fun join :: "string \<Rightarrow> string list \<Rightarrow> string" where
  "join sep [] = []"
| "join sep [x] = x"
| "join sep (x # y # ys) = x @ sep @ join sep (y # ys)"

text \<open>
  \<open>parseInt(s)\<close> with no radix: leading white space is skipped, then an optional
  sign, then \<open>0x\<close> or \<open>0X\<close> selects base sixteen, then the longest run of
  digits of the base is read. No digit gives \<open>NaN\<close>. The white space is the
  ASCII one.
\<close>

definition is_white_space :: "char \<Rightarrow> bool" where
  "is_white_space c \<longleftrightarrow> c \<in> set [CHR 0x09, CHR 0x0A, CHR 0x0B, CHR 0x0C, CHR 0x0D, CHR 0x20]"

definition digit_value :: "char \<Rightarrow> nat option" where
  "digit_value c =
     map_of (zip ''0123456789abcdef'' [0, 1, 2, 3, 4, 5, 6, 7, 8, 9, 10, 11, 12, 13, 14, 15]
             @ zip ''ABCDEF'' [10, 11, 12, 13, 14, 15]) c"

definition is_digit_of :: "nat \<Rightarrow> char \<Rightarrow> bool" where
  "is_digit_of R c = (case digit_value c of None \<Rightarrow> False | Some d \<Rightarrow> d < R)"

definition digits_value :: "nat \<Rightarrow> string \<Rightarrow> nat" where
  "digits_value R Z = foldl (\<lambda>a c. a * R + (case digit_value c of None \<Rightarrow> 0 | Some d \<Rightarrow> d)) 0 Z"

definition parseInt :: "string \<Rightarrow> number" where
  "parseInt s =
     (let S = dropWhile is_white_space s;
          (sign, S) = (case S of
                         [] \<Rightarrow> (1, S)
                       | c # rest \<Rightarrow> if c = CHR ''-'' then (- 1, rest)
                                    else if c = CHR ''+'' then (1, rest) else (1, S));
          (R, S) = (if take 2 S = ''0x'' \<or> take 2 S = ''0X'' then (16, drop 2 S) else (10, S));
          Z = takeWhile (is_digit_of R) S
      in if Z = [] then NaN else Num (round_double (sign * of_nat (digits_value R Z))))"

text \<open>
  \<open>xs[i]\<close> on an array: the element when \<open>i\<close> is an integer index of the
  array, \<open>undefined\<close> (here \<open>None\<close>) otherwise.
\<close>

definition js_index :: "'a list \<Rightarrow> rat \<Rightarrow> 'a option" where
  "js_index xs i =
     (if i = of_int \<lfloor>i\<rfloor> \<and> 0 \<le> i \<and> i < of_nat (length xs) then Some (xs ! nat \<lfloor>i\<rfloor>) else None)"

section \<open>The environment\<close>

text \<open>
  The program reads two things from outside: the random source and the clock.
  The \<open>world\<close> is the number of such reads made so far, and the environment
  says what each read returns: \<open>random_source e k\<close> when read number \<open>k\<close>
  is a call of \<open>Math.random()\<close>, \<open>date_source e k\<close> when it is a reading of
  the clock. \<open>iso_format\<close> stands for \<open>Date.prototype.toISOString\<close>.
\<close>

record env =
  random_source :: "nat \<Rightarrow> rat"
  date_source :: "nat \<Rightarrow> rat"
  iso_format :: "rat \<Rightarrow> string"

type_synonym world = nat

definition Math_random :: "env \<Rightarrow> world \<Rightarrow> rat \<times> world" where
  "Math_random e w = (random_source e w, Suc w)"

definition Date_now :: "env \<Rightarrow> world \<Rightarrow> rat \<times> world" where
  "Date_now e w = (date_source e w, Suc w)"

definition random_contract :: "env \<Rightarrow> bool" where
  "random_contract e \<longleftrightarrow> (\<forall>n. Math_random_ok (random_source e n))"

text \<open>
  An environment for examples: every call of \<open>Math.random()\<close> returns \<open>r\<close>
  and the clock stands at the epoch.
\<close>

definition fixed_env :: "rat \<Rightarrow> env" where
  "fixed_env r =
     \<lparr>random_source = (\<lambda>k. r), date_source = (\<lambda>k. 0),
      iso_format = (\<lambda>t. ''1970-01-01T00:00:00.000Z'')\<rparr>"

section \<open>The record synthesizer (scraper-standalone.cjs)\<close>

datatype error = TypeError

record agent =
  agent_name :: string
  agent_phone :: string
  agent_email :: string
  agent_broker :: string

record price_event =
  event_date :: string
  event_price :: rat
  event :: string

record tax_entry =
  tax_year :: rat
  tax_value :: rat
  tax :: rat

record school =
  school_name :: string
  rating :: rat
  distance :: rat
  grades :: string

text \<open>
  \<open>propertyType\<close> is read from an array by a computed index, so it is
  \<open>undefined\<close> (\<open>None\<close>) when the index is out of range; \<open>hoaFee\<close> is a
  number or \<open>null\<close>.
\<close>

record property =
  propertyId :: string
  mlsId :: string
  streetAddress :: string
  city :: string
  state :: string
  zipCode :: string
  latitude :: string
  longitude :: string
  price :: rat
  bedrooms :: rat
  bathrooms :: rat
  sqft :: rat
  lotSize :: rat
  yearBuilt :: rat
  propertyType :: "string option"
  listingStatus :: string
  daysOnMarket :: rat
  hoaFee :: "rat option"
  images :: "string list"
  thumbnailUrl :: string
  description :: string
  agentName :: string
  agentPhone :: string
  agentEmail :: string
  brokerName :: string
  zestimate :: rat
  rentZestimate :: rat
  priceHistory :: "price_event list"
  taxHistory :: "tax_entry list"
  schools :: "school list"
  scrapedAt :: string
  dataSource :: string
  isActive :: bool

definition CITIES :: "string list" where
  "CITIES =
     [''Orlando'', ''Tampa'', ''Daytona Beach'', ''St. Petersburg'', ''Clearwater'',
      ''Lakeland'', ''Kissimmee'', ''Port Orange'', ''Sanford'', ''Oviedo'',
      ''Winter Park'', ''Altamonte Springs'', ''Deltona'', ''Palm Coast'', ''Titusville'']"

definition propertyTypes :: "string list" where
  "propertyTypes = [''Single Family'', ''Condo'', ''Townhouse'', ''Multi-Family'']"

definition streets :: "string list" where
  "streets =
     [''Main St'', ''Oak Ave'', ''Palm Dr'', ''Lake View Blvd'', ''Sunset Way'', ''Beach Rd'',
      ''Pine St'', ''Maple Ave'']"

definition agents :: "agent list" where
  "agents =
     [\<lparr>agent_name = ''John Smith'', agent_phone = ''(407) 555-0101'',
       agent_email = ''john.smith@realty.com'', agent_broker = ''Keller Williams''\<rparr>,
      \<lparr>agent_name = ''Sarah Johnson'', agent_phone = ''(407) 555-0102'',
       agent_email = ''sarah.j@remax.com'', agent_broker = ''RE/MAX''\<rparr>,
      \<lparr>agent_name = ''Mike Davis'', agent_phone = ''(407) 555-0103'',
       agent_email = ''mdavis@century21.com'', agent_broker = ''Century 21''\<rparr>,
      \<lparr>agent_name = ''Emily Brown'', agent_phone = ''(407) 555-0104'',
       agent_email = ''ebrown@coldwell.com'', agent_broker = ''Coldwell Banker''\<rparr>]"

text \<open>A value interpolated into a template literal; \<open>undefined\<close> prints as its name.\<close>

definition interpolate :: "string option \<Rightarrow> string" where
  "interpolate v = (case v of None \<Rightarrow> ''undefined'' | Some s \<Rightarrow> s)"

text \<open>
  \<open>Math.random() > 0.5 ? Math.floor(Math.random() * 300) + 50 : null\<close>: the
  second number is drawn only when the first one exceeds one half.
\<close>

definition hoaFee_draw :: "env \<Rightarrow> world \<Rightarrow> rat option \<times> world" where
  "hoaFee_draw e w0 =
     (let (r, w) = Math_random e w0
      in if 1 / 2 < r
         then let (r, w) = Math_random e w
              in (Some (js_add (Math_floor (js_mul r 300)) 50), w)
         else (None, w))"

text \<open>
  One pass through the body of the \<open>for\<close> loop of \<open>generateProperties\<close>. The
  calls of \<open>Math.random()\<close> are made in the order of the source text. Two
  expressions can throw: \<open>toLowerCase\<close> on an \<open>undefined\<close> property type
  inside the description, and \<open>agent.name\<close> on an \<open>undefined\<close> agent.
\<close>

definition loop_body :: "env \<Rightarrow> string \<Rightarrow> world \<Rightarrow> error + (property \<times> world)" where
  "loop_body e city_arg w0 =
     (let (r, w) = Math_random e w0;
          beds = js_add 2 (Math_floor (js_mul r 4));
          (r, w) = Math_random e w;
          whole_baths = js_add 1 (Math_floor (js_mul r 3));
          (r, w) = Math_random e w;
          baths = js_add whole_baths (if 1 / 2 < r then 1 / 2 else 0);
          (r, w) = Math_random e w;
          sqft_v = js_add 1000 (Math_floor (js_mul r 2500));
          (r, w) = Math_random e w;
          price_v =
            js_mul (Math_floor (js_div (js_mul sqft_v (js_add 150 (js_mul r 150))) 1000)) 1000;
          (r, w) = Math_random e w;
          agent_v = js_index agents (Math_floor (js_mul r (of_nat (length agents))));
          (r, w) = Math_random e w;
          propertyId_v = ''ZPID'' @ Number_toString (Math_floor (js_mul r 100000000));
          (r, w) = Math_random e w;
          mlsId_v = ''MLS'' @ Number_toString (Math_floor (js_mul r 1000000));
          (r, w) = Math_random e w;
          house = js_add 100 (Math_floor (js_mul r 9900));
          (r, w) = Math_random e w;
          street = js_index streets (Math_floor (js_mul r (of_nat (length streets))));
          streetAddress_v = Number_toString house @ '' '' @ interpolate street;
          (r, w) = Math_random e w;
          zipCode_v = Number_toString (js_add 32700 (Math_floor (js_mul r 1000)));
          (r, w) = Math_random e w;
          latitude_v = toFixed6 (js_add (57 / 2) (js_mul r (1 / 2)));
          (r, w) = Math_random e w;
          longitude_v = toFixed6 (js_add (- js_lit (814 / 10)) (js_mul r (1 / 2)));
          (r, w) = Math_random e w;
          lotSize_v = Math_floor (js_mul sqft_v (js_add 2 (js_mul r 3)));
          (r, w) = Math_random e w;
          yearBuilt_v = js_add 1980 (Math_floor (js_mul r 44));
          (r, w) = Math_random e w;
          propertyType_v =
            js_index propertyTypes (Math_floor (js_mul r (of_nat (length propertyTypes))));
          (r, w) = Math_random e w;
          daysOnMarket_v = Math_floor (js_mul r 90);
          (hoaFee_v, w) = hoaFee_draw e w;
          (r, w) = Math_random e w;
          described =
            js_index propertyTypes (Math_floor (js_mul r (of_nat (length propertyTypes))))
      in case described of
           None \<Rightarrow> Inl TypeError
         | Some type_name \<Rightarrow>
             let (r, w) = Math_random e w;
                 description_v =
                   ''Beautiful '' @ Number_toString beds @ '' bedroom, ''
                   @ Number_toString baths @ '' bathroom '' @ toLowerCase type_name
                   @ '' in '' @ city_arg @ ''. This stunning property features ''
                   @ Number_toString sqft_v
                   @ '' sq ft of living space with modern amenities, updated kitchen, and spacious living areas. Great location close to schools, shopping, and entertainment. ''
                   @ (if 1 / 2 < r then ''Recently renovated with new appliances and flooring.''
                      else ''Move-in ready with excellent curb appeal.'')
                   @ '' Perfect for ''
                   @ (if 4 \<le> beds then ''large families'' else ''first-time buyers or investors'')
                   @ ''.''
             in case agent_v of
                  None \<Rightarrow> Inl TypeError
                | Some a \<Rightarrow>
                    let (r, w) = Math_random e w;
                        zestimate_v =
                          Math_floor (js_mul price_v (js_add (js_lit (95 / 100)) (js_mul r (js_lit (1 / 10)))));
                        (r, w) = Math_random e w;
                        rating1 = js_add 7 (Math_floor (js_mul r 3));
                        (r, w) = Math_random e w;
                        distance1 = js_add (1 / 2) (js_mul r 2);
                        (r, w) = Math_random e w;
                        rating2 = js_add 6 (Math_floor (js_mul r 4));
                        (r, w) = Math_random e w;
                        distance2 = js_add 1 (js_mul r 3);
                        (r, w) = Math_random e w;
                        rating3 = js_add 7 (Math_floor (js_mul r 3));
                        (r, w) = Math_random e w;
                        distance3 = js_add 2 (js_mul r 4);
                        (now, w) = Date_now e w
                    in Inr (\<lparr>propertyId = propertyId_v,
                             mlsId = mlsId_v,
                             streetAddress = streetAddress_v,
                             city = city_arg,
                             state = ''FL'',
                             zipCode = zipCode_v,
                             latitude = latitude_v,
                             longitude = longitude_v,
                             price = price_v,
                             bedrooms = beds,
                             bathrooms = baths,
                             sqft = sqft_v,
                             lotSize = lotSize_v,
                             yearBuilt = yearBuilt_v,
                             propertyType = propertyType_v,
                             listingStatus = ''FOR_SALE'',
                             daysOnMarket = daysOnMarket_v,
                             hoaFee = hoaFee_v,
                             images =
                               [''https://images.unsplash.com/photo-1568605114967-8130f3a36994?w=800&q=80'',
                                ''https://images.unsplash.com/photo-1570129477492-45c003edd2be?w=800&q=80'',
                                ''https://images.unsplash.com/photo-1564013799919-ab600027ffc6?w=800&q=80'',
                                ''https://images.unsplash.com/photo-1600596542815-ffad4c1539a9?w=800&q=80''],
                             thumbnailUrl =
                               ''https://images.unsplash.com/photo-1568605114967-8130f3a36994?w=400&q=80'',
                             description = description_v,
                             agentName = agent_name a,
                             agentPhone = agent_phone a,
                             agentEmail = agent_email a,
                             brokerName = agent_broker a,
                             zestimate = zestimate_v,
                             rentZestimate = Math_floor (js_mul price_v (js_lit (6 / 1000))),
                             priceHistory =
                               [\<lparr>event_date = ''2024-11-01'', event_price = price_v,
                                 event = ''Listed for sale''\<rparr>,
                                \<lparr>event_date = ''2024-10-15'',
                                 event_price = Math_floor (js_mul price_v (js_lit (105 / 100))),
                                 event = ''Price change''\<rparr>],
                             taxHistory =
                               [\<lparr>tax_year = 2024,
                                 tax_value = Math_floor (js_mul price_v (js_lit (85 / 100))),
                                 tax = Math_floor (js_mul price_v (js_lit (12 / 1000)))\<rparr>,
                                \<lparr>tax_year = 2023,
                                 tax_value = Math_floor (js_mul price_v (js_lit (82 / 100))),
                                 tax = Math_floor (js_mul price_v (js_lit (11 / 1000)))\<rparr>],
                             schools =
                               [\<lparr>school_name = city_arg @ '' Elementary School'', rating = rating1,
                                 distance = distance1, grades = ''K-5''\<rparr>,
                                \<lparr>school_name = city_arg @ '' Middle School'', rating = rating2,
                                 distance = distance2, grades = ''6-8''\<rparr>,
                                \<lparr>school_name = city_arg @ '' High School'', rating = rating3,
                                 distance = distance3, grades = ''9-12''\<rparr>],
                             scrapedAt = iso_format e now,
                             dataSource = ''sample-generator'',
                             isActive = True\<rparr>, w))"

text \<open>The loop test \<open>i < count\<close>; a comparison with \<open>NaN\<close> is false.\<close>

definition js_less :: "rat \<Rightarrow> number \<Rightarrow> bool" where
  "js_less i count = (case count of NaN \<Rightarrow> False | Num c \<Rightarrow> i < c)"

text \<open>
  The \<open>for\<close> loop of \<open>generateProperties\<close>. The counter stays far below
  \<open>2 ^ 53\<close> for any array that fits in memory, so \<open>i++\<close> is exact and the
  counter is a natural number. An exception leaves the loop at once.
\<close>

function for_loop ::
  "env \<Rightarrow> string \<Rightarrow> number \<Rightarrow> nat \<Rightarrow> property list \<Rightarrow> world \<Rightarrow> error + (property list \<times> world)"
where
  "for_loop e city_arg count i properties w =
     (if js_less (of_nat i) count
      then (case loop_body e city_arg w of
              Inl err \<Rightarrow> Inl err
            | Inr (p, w') \<Rightarrow> for_loop e city_arg count (Suc i) (properties @ [p]) w')
      else Inr (properties, w))"
  by pat_completeness auto
termination
proof (relation "measure (\<lambda>(e, city_arg, count, i, properties, w).
                   case count of NaN \<Rightarrow> 0 | Num c \<Rightarrow> nat \<lceil>c\<rceil> - i)")
  show "wf (measure (\<lambda>(e, city_arg, count, i, properties, w).
                   case count of NaN \<Rightarrow> 0 | Num c \<Rightarrow> nat \<lceil>c\<rceil> - i))"
    by simp
next
  fix e :: env and city_arg :: string and count :: number and i :: nat
    and properties :: "property list" and w :: world and x2 :: "property \<times> world"
    and x y
  assume "js_less (rat_of_nat i) count"
  then obtain c where c: "count = Num c" "rat_of_nat i < c"
    by (cases count) (simp_all add: js_less_def)
  then have "int i < \<lceil>c\<rceil>" by (simp add: less_ceiling_iff)
  then have "i < nat \<lceil>c\<rceil>" by simp
  then show "((e, city_arg, count, Suc i, properties @ [x], y), (e, city_arg, count, i, properties, w))
      \<in> measure (\<lambda>(e, city_arg, count, i, properties, w).
                   case count of NaN \<Rightarrow> 0 | Num c \<Rightarrow> nat \<lceil>c\<rceil> - i)"
    using c by simp
qed

declare for_loop.simps [simp del]

text \<open>\<open>generateProperties(city, count = 10)\<close>: an omitted count is 10.\<close>

definition generateProperties ::
  "env \<Rightarrow> string \<Rightarrow> number option \<Rightarrow> world \<Rightarrow> error + (property list \<times> world)"
where
  "generateProperties e city_arg count_arg w =
     (let count = (case count_arg of None \<Rightarrow> Num 10 | Some c \<Rightarrow> c)
      in for_loop e city_arg count 0 [] w)"

text \<open>
  The number of passes the loop still makes when its counter is \<open>i\<close>: the
  integers from \<open>i\<close> on that are less than \<open>count\<close>.
\<close>

definition iterations :: "number \<Rightarrow> nat \<Rightarrow> nat" where
  "iterations count i = (case count of NaN \<Rightarrow> 0 | Num n \<Rightarrow> nat \<lceil>n\<rceil> - i)"

section \<open>The HTTP adapter (api/scrape-v2.js)\<close>

text \<open>
  A request is its method and the four query parameters the handler reads, each
  a string when present. A response is the status, the headers the handler sets
  itself, and the body.
\<close>

record request =
  http_method :: string
  query_city :: "string option"
  query_limit :: "string option"
  query_all :: "string option"
  query_format :: "string option"

datatype 'p body =
  End
| ErrorJson string
| UsageJson string string string
| Send string
| SuccessJson bool rat string "'p list"
| FailureJson bool error

record 'p response =
  status :: nat
  headers :: "string \<rightharpoonup> string"
  body :: "'p body"

definition cors :: "string \<rightharpoonup> string" where
  "cors =
     [''Access-Control-Allow-Origin'' \<mapsto> ''*'',
      ''Access-Control-Allow-Methods'' \<mapsto> ''GET, OPTIONS'',
      ''Access-Control-Allow-Headers'' \<mapsto> ''Content-Type'']"

text \<open>\<open>v || d\<close> on an optional string: an absent or empty string is falsy.\<close>

definition or_else :: "string option \<Rightarrow> string \<Rightarrow> string" where
  "or_else v d = (case v of None \<Rightarrow> d | Some s \<Rightarrow> if s = [] then d else s)"

text \<open>\<open>const maxProperties = parseInt(limit) || 10\<close>, with \<open>limit = '10'\<close> when absent.\<close>

definition maxProperties :: "request \<Rightarrow> rat" where
  "maxProperties req =
     (let limit = (case query_limit req of None \<Rightarrow> ''10'' | Some l \<Rightarrow> l)
      in case parseInt limit of NaN \<Rightarrow> 10 | Num n \<Rightarrow> if n = 0 then 10 else n)"

text \<open>\<open>for (const cityName of CITIES) properties.push(...generateProperties(cityName, maxProperties))\<close>\<close>

fun all_cities ::
  "env \<Rightarrow> string list \<Rightarrow> rat \<Rightarrow> property list \<Rightarrow> world \<Rightarrow> error + (property list \<times> world)"
where
  "all_cities e [] m properties w = Inr (properties, w)"
| "all_cities e (cityName # rest) m properties w =
     (case generateProperties e cityName (Some (Num m)) w of
        Inl err \<Rightarrow> Inl err
      | Inr (generated, w') \<Rightarrow> all_cities e rest m (properties @ generated) w')"

definition csvHeader :: string where
  "csvHeader =
     ''Property ID,MLS ID,Address,City,State,ZIP,Price,Beds,Baths,SqFt,Type,Year,Status\<newline>''"

definition csv_row :: "property \<Rightarrow> string" where
  \<open>csv_row p =
     ''"'' @ propertyId p @ ''","'' @ mlsId p @ ''","'' @ streetAddress p @ ''","'' @ city p
     @ ''","'' @ state p @ ''","'' @ zipCode p @ ''",'' @ Number_toString (price p)
     @ '','' @ Number_toString (bedrooms p) @ '','' @ Number_toString (bathrooms p)
     @ '','' @ Number_toString (sqft p) @ '',"'' @ interpolate (propertyType p)
     @ ''",'' @ Number_toString (yearBuilt p) @ '',"'' @ listingStatus p @ ''"''\<close>

text \<open>The last part of the handler: the CSV or JSON response for the generated records.\<close>

definition render :: "request \<Rightarrow> property list \<Rightarrow> property response" where
  \<open>render req properties =
     (let format = (case query_format req of None \<Rightarrow> ''json'' | Some f \<Rightarrow> f)
      in if format = ''csv''
         then \<lparr>status = 200,
               headers = cors(''Content-Type'' \<mapsto> ''text/csv'',
                              ''Content-Disposition'' \<mapsto>
                                ''attachment; filename="properties-''
                                @ or_else (query_city req) ''all'' @ ''.csv"''),
               body = Send (csvHeader @ join ''\<newline>'' (map csv_row properties))\<rparr>
         else \<lparr>status = 200, headers = cors,
               body = SuccessJson True (of_nat (length properties))
                        (or_else (query_city req) ''all'') properties\<rparr>)\<close>

definition failure :: "error \<Rightarrow> property response" where
  "failure err = \<lparr>status = 500, headers = cors, body = FailureJson False err\<rparr>"

definition usage :: "property response" where
  "usage =
     \<lparr>status = 400, headers = cors,
      body = UsageJson ''Missing parameter'' ''/api/scrape-v2?city=Orlando&limit=50''
               ''/api/scrape-v2?all=true&limit=10''\<rparr>"

definition scrape_v2 :: "env \<Rightarrow> request \<Rightarrow> world \<Rightarrow> property response" where
  "scrape_v2 e req w =
     (if http_method req = ''OPTIONS'' then \<lparr>status = 200, headers = cors, body = End\<rparr>
      else if http_method req \<noteq> ''GET''
      then \<lparr>status = 405, headers = cors, body = ErrorJson ''Method not allowed''\<rparr>
      else if query_all req = Some ''true''
      then (case all_cities e CITIES (maxProperties req) [] w of
              Inl err \<Rightarrow> failure err
            | Inr (properties, w') \<Rightarrow> render req properties)
      else (case query_city req of
              None \<Rightarrow> usage
            | Some c \<Rightarrow>
                if c = [] then usage
                else (case generateProperties e c (Some (Num (maxProperties req))) w of
                        Inl err \<Rightarrow> failure err
                      | Inr (properties, w') \<Rightarrow> render req properties)))"

text \<open>What a client reads in a JSON envelope.\<close>

definition envelope_count :: "'p body \<Rightarrow> rat option" where
  "envelope_count b = (case b of SuccessJson s n c ps \<Rightarrow> Some n | _ \<Rightarrow> None)"

definition envelope_city :: "'p body \<Rightarrow> string option" where
  "envelope_city b = (case b of SuccessJson s n c ps \<Rightarrow> Some c | _ \<Rightarrow> None)"

definition envelope_properties :: "'p body \<Rightarrow> 'p list option" where
  "envelope_properties b = (case b of SuccessJson s n c ps \<Rightarrow> Some ps | _ \<Rightarrow> None)"


section \<open>The older adapter (api/scrape.js) and its generator (index.js)\<close>

record sample_city =
  name :: string
  city_state :: string
  zip :: string

record sample_property =
  source :: string
  address :: string
  sample_city :: string
  sample_state :: string
  sample_zipCode :: string
  sample_price :: rat
  beds :: rat
  baths :: rat
  sample_sqft :: rat
  sample_propertyType :: "string option"
  sample_yearBuilt :: rat
  link :: string
  imageUrl :: string
  sample_scrapedAt :: string

definition streetNames :: "string list" where
  "streetNames = [''Oak'', ''Maple'', ''Pine'', ''Cedar'', ''Elm'', ''Palm'', ''Lake'', ''Bay'']"

definition streetTypes :: "string list" where
  "streetTypes = [''Dr'', ''St'', ''Ave'', ''Blvd'', ''Ln'', ''Way'']"

text \<open>
  One pass through the loop of \<open>generateSampleProperties\<close> in index.js. Nothing
  in it can throw: an array read out of range is only interpolated or stored.
  The warning it logs first is not part of the model.
\<close>

definition sample_body :: "env \<Rightarrow> sample_city \<Rightarrow> nat \<Rightarrow> world \<Rightarrow> sample_property \<times> world" where
  "sample_body e c i w0 =
     (let (r, w) = Math_random e w0;
          beds_v = js_add (Math_floor (js_mul r 4)) 1;
          (r, w) = Math_random e w;
          baths_v = js_add (Math_floor (js_mul r 3)) 1;
          (r, w) = Math_random e w;
          sqft_v = js_add (Math_floor (js_mul r 2000)) 1000;
          (r, w) = Math_random e w;
          price_v = js_add (Math_floor (js_mul r 400000)) 200000;
          (r, w) = Math_random e w;
          house = js_add (Math_floor (js_mul r 9000)) 1000;
          (r, w) = Math_random e w;
          streetName = js_index streetNames (Math_floor (js_mul r (of_nat (length streetNames))));
          (r, w) = Math_random e w;
          streetType = js_index streetTypes (Math_floor (js_mul r (of_nat (length streetTypes))));
          (r, w) = Math_random e w;
          type_v = js_index [''House'', ''Condo'', ''Townhouse''] (Math_floor (js_mul r 3));
          (r, w) = Math_random e w;
          year_v = js_add (Math_floor (js_mul r 40)) 1980;
          (now, w) = Date_now e w;
          (stamp, w) = Date_now e w
      in (\<lparr>source = ''generated'',
           address = Number_toString house @ '' '' @ interpolate streetName @ '' ''
                     @ interpolate streetType,
           sample_city = name c,
           sample_state = city_state c,
           sample_zipCode = zip c,
           sample_price = price_v,
           beds = beds_v,
           baths = baths_v,
           sample_sqft = sqft_v,
           sample_propertyType = type_v,
           sample_yearBuilt = year_v,
           link = ''https://example.com/property/'' @ Number_toString now @ ''-''
                  @ Number_toString (of_nat i),
           imageUrl = ''https://images.unsplash.com/photo-''
                      @ Number_toString (js_add 1568605114967 (of_nat i)),
           sample_scrapedAt = iso_format e stamp\<rparr>, w))"

function sample_loop ::
  "env \<Rightarrow> sample_city \<Rightarrow> number \<Rightarrow> nat \<Rightarrow> sample_property list \<Rightarrow> world
   \<Rightarrow> sample_property list \<times> world"
where
  "sample_loop e c count i properties w =
     (if js_less (of_nat i) count
      then (case sample_body e c i w of
              (p, w') \<Rightarrow> sample_loop e c count (Suc i) (properties @ [p]) w')
      else (properties, w))"
  by pat_completeness auto
termination
proof (relation "measure (\<lambda>(e, c, count, i, properties, w).
                   case count of NaN \<Rightarrow> 0 | Num n \<Rightarrow> nat \<lceil>n\<rceil> - i)")
  show "wf (measure (\<lambda>(e, c, count, i, properties, w).
                   case count of NaN \<Rightarrow> 0 | Num n \<Rightarrow> nat \<lceil>n\<rceil> - i))"
    by simp
next
  fix e :: env and c :: sample_city and count :: number and i :: nat
    and properties :: "sample_property list" and w :: world and x y
  assume "js_less (rat_of_nat i) count"
  then obtain n where n: "count = Num n" "rat_of_nat i < n"
    by (cases count) (simp_all add: js_less_def)
  then have "int i < \<lceil>n\<rceil>" by (simp add: less_ceiling_iff)
  then have "i < nat \<lceil>n\<rceil>" by simp
  then show "((e, c, count, Suc i, properties @ [x], y), (e, c, count, i, properties, w))
      \<in> measure (\<lambda>(e, c, count, i, properties, w).
                   case count of NaN \<Rightarrow> 0 | Num n \<Rightarrow> nat \<lceil>n\<rceil> - i)"
    using n by simp
qed

declare sample_loop.simps [simp del]

definition generateSampleProperties ::
  "env \<Rightarrow> sample_city \<Rightarrow> number option \<Rightarrow> world \<Rightarrow> sample_property list \<times> world"
where
  "generateSampleProperties e c count_arg w =
     (let count = (case count_arg of None \<Rightarrow> Num 10 | Some n \<Rightarrow> n)
      in sample_loop e c count 0 [] w)"

definition sample_row :: "sample_property \<Rightarrow> string" where
  \<open>sample_row p =
     join '',''
       (map (\<lambda>cell. ''"'' @ cell @ ''"'')
          [address p, sample_city p, sample_state p, sample_zipCode p,
           Number_toString (sample_price p), Number_toString (beds p),
           Number_toString (baths p), Number_toString (sample_sqft p),
           interpolate (sample_propertyType p), source p])\<close>

text \<open>
  The handler of api/scrape.js. It reads \<open>city\<close>, \<open>format\<close> and \<open>limit\<close>
  only; \<open>limit\<close> is the number 10 when absent, which \<open>parseInt\<close> reads back
  from its decimal form.
\<close>

definition scrape :: "env \<Rightarrow> request \<Rightarrow> world \<Rightarrow> sample_property response" where
  \<open>scrape e req w =
     (let format = (case query_format req of None \<Rightarrow> ''json'' | Some f \<Rightarrow> f);
          limit = (case query_limit req of None \<Rightarrow> Number_toString 10 | Some l \<Rightarrow> l)
      in if http_method req = ''OPTIONS'' then \<lparr>status = 200, headers = cors, body = End\<rparr>
         else if http_method req \<noteq> ''GET''
         then \<lparr>status = 405, headers = cors, body = ErrorJson ''Method not allowed''\<rparr>
         else let sampleCity = \<lparr>name = or_else (query_city req) ''Orlando'',
                                 city_state = ''FL'', zip = ''32801''\<rparr>;
                  (properties, w') = generateSampleProperties e sampleCity (Some (parseInt limit)) w
              in if format = ''csv''
                 then \<lparr>status = 200,
                       headers = cors(''Content-Type'' \<mapsto> ''text/csv'',
                                      ''Content-Disposition'' \<mapsto>
                                        ''attachment; filename="properties-'' @ name sampleCity
                                        @ ''.csv"''),
                       body = Send (join ''\<newline>''
                                (join '','' [''Address'', ''City'', ''State'', ''ZIP'', ''Price'',
                                            ''Beds'', ''Baths'', ''SqFt'', ''Type'', ''Source'']
                                 # map sample_row properties))\<rparr>
                 else \<lparr>status = 200, headers = cors,
                       body = SuccessJson True (of_nat (length properties)) (name sampleCity)
                                properties\<rparr>)\<close>

section \<open>Rounding to a double\<close>

text \<open>
  The facts about \<open>round_double\<close> that the rest needs: it is monotone, it
  leaves the integers below \<open>2 ^ 53\<close> alone, it can be computed once the
  binary exponent is known, and a double below 1 is at most \<open>1 - 1 / 2 ^ 53\<close>.
\<close>

lemma log2floor_bounds:
  "1 \<le> n \<Longrightarrow> 2 ^ log2floor n \<le> n \<and> n < 2 ^ Suc (log2floor n)"
proof (induction n rule: log2floor.induct)
  case (1 n)
  show ?case
  proof (cases "n < 2")
    case True
    with "1.prems" have "n = 1" by simp
    then show ?thesis by (simp add: log2floor.simps)
  next
    case False
    then have h: "1 \<le> n div 2" by simp
    from "1.IH" [OF False h]
    have lo: "2 ^ log2floor (n div 2) \<le> n div 2"
      and hi: "n div 2 < 2 ^ Suc (log2floor (n div 2))" by simp_all
    have eq: "log2floor n = Suc (log2floor (n div 2))"
      using False by (subst log2floor.simps) simp
    from lo have "2 * 2 ^ log2floor (n div 2) \<le> n" by linarith
    moreover from hi have "n < 2 * 2 ^ Suc (log2floor (n div 2))" by linarith
    ultimately show ?thesis by (simp add: eq)
  qed
qed

lemma floor_log2_bounds:
  assumes "0 < a"
  shows "2 powi floor_log2 a \<le> a \<and> a < 2 powi (floor_log2 a + 1)"
proof (cases "1 \<le> a")
  case True
  define n where "n = nat \<lfloor>a\<rfloor>"
  have n1: "1 \<le> n" using True by (simp add: n_def le_floor_iff le_nat_iff)
  have fl: "floor_log2 a = int (log2floor n)" using True by (simp add: floor_log2_def n_def)
  from log2floor_bounds [OF n1]
  have lo: "2 ^ log2floor n \<le> n" and hi: "n < 2 ^ Suc (log2floor n)" by simp_all
  have na: "rat_of_nat n \<le> a" using True by (simp add: n_def)
  have an: "a < rat_of_nat n + 1" using True by (simp add: n_def) linarith
  have "(2::rat) ^ log2floor n \<le> rat_of_nat n"
    using lo by (metis of_nat_le_iff of_nat_numeral of_nat_power)
  then have A: "(2::rat) ^ log2floor n \<le> a" using na by linarith
  have "n + 1 \<le> 2 ^ Suc (log2floor n)" using hi by simp
  then have "rat_of_nat (n + 1) \<le> 2 ^ Suc (log2floor n)"
    by (metis of_nat_le_iff of_nat_numeral of_nat_power)
  then have B: "a < 2 ^ Suc (log2floor n)" using an by simp
  show ?thesis using A B
    by (simp add: fl power_int_def nat_add_distrib)
next
  case False
  define y where "y = 1 / a"
  have y1: "1 < y" using False assms by (simp add: y_def)
  define m where "m = nat (\<lceil>y\<rceil> - 1)"
  have cy: "2 \<le> \<lceil>y\<rceil>" using y1 by (simp add: le_ceiling_iff)
  have m1: "1 \<le> m" unfolding m_def using cy by linarith
  have fl: "floor_log2 a = - int (Suc (log2floor m))"
    using False by (simp add: floor_log2_def m_def y_def)
  from log2floor_bounds [OF m1]
  have lo: "2 ^ log2floor m \<le> m" and hi: "m < 2 ^ Suc (log2floor m)" by simp_all
  have my: "rat_of_nat m < y"
  proof -
    have "rat_of_nat m = of_int (\<lceil>y\<rceil> - 1)" using cy by (simp add: m_def)
    also have "\<dots> < y" by linarith
    finally show ?thesis .
  qed
  have ym: "y \<le> rat_of_nat m + 1"
  proof -
    have "rat_of_nat m + 1 = of_int \<lceil>y\<rceil>" using cy by (simp add: m_def)
    then show ?thesis by simp
  qed
  have "(2::rat) ^ log2floor m \<le> rat_of_nat m"
    using lo by (metis of_nat_le_iff of_nat_numeral of_nat_power)
  then have A: "(2::rat) ^ log2floor m < y" using my by linarith
  have "m + 1 \<le> 2 ^ Suc (log2floor m)" using hi by simp
  then have "rat_of_nat (m + 1) \<le> 2 ^ Suc (log2floor m)"
    by (metis of_nat_le_iff of_nat_numeral of_nat_power)
  then have B: "y \<le> 2 ^ Suc (log2floor m)" using ym by simp
  have ypos: "0 < y" using y1 by simp
  have ay: "a = 1 / y" by (simp add: y_def)
  have A': "a < 1 / 2 ^ log2floor m"
    unfolding ay using A ypos by (simp add: frac_less2)
  have B': "1 / 2 ^ Suc (log2floor m) \<le> a"
    unfolding ay using B ypos by (simp add: frac_le)
  have pm: "(2::rat) powi (- int k) = 1 / 2 ^ k" for k
    by (simp only: power_int_minus power_int_of_nat inverse_eq_divide)
  have e1: "(2::rat) powi (- int (Suc (log2floor m))) = 1 / 2 ^ Suc (log2floor m)"
    by (rule pm)
  have "- int (Suc (log2floor m)) + 1 = - int (log2floor m)" by simp
  then have e2: "(2::rat) powi (- int (Suc (log2floor m)) + 1) = 1 / 2 ^ log2floor m"
    by (simp only: pm)
  show ?thesis unfolding fl e1 e2 using A' B' by simp
qed

lemma floor_log2_unique:
  assumes "0 < a" "2 powi e \<le> a" "a < 2 powi (e + 1)"
  shows "floor_log2 a = e"
proof -
  from floor_log2_bounds [OF assms(1)]
  have lo: "2 powi floor_log2 a \<le> a" and hi: "a < 2 powi (floor_log2 a + 1)" by simp_all
  have "floor_log2 a < e + 1"
  proof (rule ccontr)
    assume "\<not> floor_log2 a < e + 1"
    then have "e + 1 \<le> floor_log2 a" by simp
    then have "(2::rat) powi (e + 1) \<le> 2 powi floor_log2 a"
      by (intro power_int_increasing) simp_all
    with lo assms(3) show False by linarith
  qed
  moreover have "e < floor_log2 a + 1"
  proof (rule ccontr)
    assume "\<not> e < floor_log2 a + 1"
    then have "floor_log2 a + 1 \<le> e" by simp
    then have "(2::rat) powi (floor_log2 a + 1) \<le> 2 powi e"
      by (intro power_int_increasing) simp_all
    with hi assms(2) show False by linarith
  qed
  ultimately show ?thesis by simp
qed

lemma floor_log2_mono:
  assumes "0 < a" "a \<le> b"
  shows "floor_log2 a \<le> floor_log2 b"
proof (rule ccontr)
  assume "\<not> floor_log2 a \<le> floor_log2 b"
  then have "floor_log2 b + 1 \<le> floor_log2 a" by simp
  then have "(2::rat) powi (floor_log2 b + 1) \<le> 2 powi floor_log2 a"
    by (intro power_int_increasing) simp_all
  moreover have "0 < b" using assms by simp
  ultimately show False
    using floor_log2_bounds [OF assms(1)] floor_log2_bounds [OF \<open>0 < b\<close>] assms(2)
    by linarith
qed

lemma exponent_mono:
  assumes "0 < x" "x \<le> y"
  shows "exponent x \<le> exponent y"
  using floor_log2_mono [of x y] assms by (simp add: exponent_def)

lemma exponent_eq:
  assumes "- 1022 \<le> e" "2 powi e \<le> \<bar>x\<bar>" "\<bar>x\<bar> < 2 powi (e + 1)"
  shows "exponent x = e"
proof -
  have "0 < \<bar>x\<bar>" using assms(2) zero_less_power_int [of "2::rat" e] by linarith
  from floor_log2_unique [OF this assms(2) assms(3)] assms(1)
  show ?thesis by (simp add: exponent_def)
qed

lemma ulp_pos: "0 < ulp x"
  by (simp add: ulp_def)

lemma round_half_even_floor:
  "\<lfloor>q\<rfloor> \<le> round_half_even q \<and> round_half_even q \<le> \<lfloor>q\<rfloor> + 1"
  by (simp add: round_half_even_def Let_def)

lemma round_half_even_of_int: "round_half_even (of_int n) = n"
  by (simp add: round_half_even_def)

lemma round_half_even_mono:
  assumes "q \<le> q'"
  shows "round_half_even q \<le> round_half_even q'"
proof (cases "\<lfloor>q\<rfloor> = \<lfloor>q'\<rfloor>")
  case True
  have "q - of_int \<lfloor>q'\<rfloor> \<le> q' - of_int \<lfloor>q'\<rfloor>" using assms by simp
  then show ?thesis
    by (simp add: round_half_even_def Let_def True)
next
  case False
  have "\<lfloor>q\<rfloor> \<le> \<lfloor>q'\<rfloor>" using assms by (rule floor_mono)
  with False have "\<lfloor>q\<rfloor> + 1 \<le> \<lfloor>q'\<rfloor>" by simp
  with round_half_even_floor [of q] round_half_even_floor [of q']
  show ?thesis by linarith
qed

lemma round_half_even_le_int:
  "q \<le> of_int n \<Longrightarrow> round_half_even q \<le> n"
  using round_half_even_mono [of q "of_int n"] by (simp add: round_half_even_of_int)

lemma round_half_even_ge_int:
  "of_int n \<le> q \<Longrightarrow> n \<le> round_half_even q"
  using round_half_even_mono [of "of_int n" q] by (simp add: round_half_even_of_int)

lemma round_double_zero: "round_double 0 = 0"
  by (simp add: round_double_def round_half_even_def)

lemma round_double_nonneg:
  assumes "0 \<le> x"
  shows "0 \<le> round_double x"
proof -
  have "of_int 0 \<le> x / ulp x" using assms ulp_pos [of x] by simp
  then have "0 \<le> round_half_even (x / ulp x)" by (rule round_half_even_ge_int)
  then show ?thesis using ulp_pos [of x] by (simp add: round_double_def)
qed

lemma pow2_split: "(2::rat) powi (e + 1) = 2 ^ 53 * 2 powi (e - 52)"
proof -
  have eq: "e + 1 = 53 + (e - 52)" by simp
  show ?thesis by (subst eq, subst power_int_add) simp_all
qed

lemma pow2_split': "(2::rat) powi e = 2 ^ 52 * 2 powi (e - 52)"
proof -
  have eq: "e = 52 + (e - 52)" by simp
  show ?thesis by (subst eq, subst power_int_add) simp_all
qed

lemma round_double_upper:
  assumes "0 < x"
  shows "round_double x \<le> 2 powi (exponent x + 1)"
proof -
  have "floor_log2 x \<le> exponent x" using assms by (simp add: exponent_def)
  then have "(2::rat) powi (floor_log2 x + 1) \<le> 2 powi (exponent x + 1)"
    by (intro power_int_increasing) simp_all
  with floor_log2_bounds [OF assms] have "x < 2 powi (exponent x + 1)" by linarith
  then have "x < 2 ^ 53 * ulp x" by (simp add: pow2_split ulp_def)
  then have "x / ulp x \<le> of_int (2 ^ 53)"
    using ulp_pos [of x] by (simp add: pos_divide_le_eq)
  then have "round_half_even (x / ulp x) \<le> 2 ^ 53" by (rule round_half_even_le_int)
  then have "rat_of_int (round_half_even (x / ulp x)) \<le> 2 ^ 53"
    by (metis of_int_le_iff of_int_numeral of_int_power)
  then have "rat_of_int (round_half_even (x / ulp x)) * ulp x \<le> 2 ^ 53 * ulp x"
    using ulp_pos [of x] by (simp add: mult_right_mono)
  then show ?thesis by (simp add: round_double_def pow2_split ulp_def)
qed

lemma round_double_lower:
  assumes "0 < x" "- 1022 < exponent x"
  shows "2 powi exponent x \<le> round_double x"
proof -
  have "exponent x = floor_log2 x" using assms by (simp add: exponent_def)
  with floor_log2_bounds [OF assms(1)] have "2 powi exponent x \<le> x" by simp
  then have "2 ^ 52 * ulp x \<le> x" by (simp add: pow2_split' [of "exponent x"] ulp_def)
  then have "of_int (2 ^ 52) \<le> x / ulp x"
    using ulp_pos [of x] by (simp add: pos_le_divide_eq)
  then have "2 ^ 52 \<le> round_half_even (x / ulp x)" by (rule round_half_even_ge_int)
  then have "2 ^ 52 \<le> rat_of_int (round_half_even (x / ulp x))"
    by (metis of_int_le_iff of_int_numeral of_int_power)
  then have "2 ^ 52 * ulp x \<le> rat_of_int (round_half_even (x / ulp x)) * ulp x"
    using ulp_pos [of x] by (simp add: mult_right_mono)
  then show ?thesis by (simp add: round_double_def pow2_split' [of "exponent x"] ulp_def)
qed

lemma round_double_mono_pos:
  assumes "0 < x" "x \<le> y"
  shows "round_double x \<le> round_double y"
proof (cases "exponent x = exponent y")
  case True
  then have u: "ulp y = ulp x" by (simp add: ulp_def)
  have "x / ulp x \<le> y / ulp x" using assms ulp_pos [of x] by (simp add: divide_right_mono)
  then have "round_half_even (x / ulp x) \<le> round_half_even (y / ulp x)"
    by (rule round_half_even_mono)
  then have "rat_of_int (round_half_even (x / ulp x)) \<le> rat_of_int (round_half_even (y / ulp x))"
    by simp
  then show ?thesis
    using ulp_pos [of x] by (simp add: round_double_def u mult_right_mono)
next
  case False
  with exponent_mono [OF assms] have lt: "exponent x + 1 \<le> exponent y" by simp
  have ypos: "0 < y" using assms by simp
  have "- 1022 \<le> exponent x" by (simp add: exponent_def)
  with lt have "- 1022 < exponent y" by simp
  from round_double_lower [OF ypos this] have "2 powi exponent y \<le> round_double y" .
  moreover have "(2::rat) powi (exponent x + 1) \<le> 2 powi exponent y"
    using lt by (intro power_int_increasing) simp_all
  ultimately show ?thesis using round_double_upper [OF assms(1)] by linarith
qed

lemma round_double_mono:
  assumes "0 \<le> x" "x \<le> y"
  shows "round_double x \<le> round_double y"
proof (cases "x = 0")
  case True
  then show ?thesis using assms round_double_nonneg [of y] by (simp add: round_double_zero)
next
  case False
  with assms have "0 < x" by simp
  then show ?thesis using assms(2) by (rule round_double_mono_pos)
qed

lemma round_double_eval:
  assumes "- 1022 \<le> e" "2 powi e \<le> \<bar>x\<bar>" "\<bar>x\<bar> < 2 powi (e + 1)"
  shows "round_double x = of_int (round_half_even (x / 2 powi (e - 52))) * 2 powi (e - 52)"
  by (simp add: round_double_def ulp_def exponent_eq [OF assms])

lemma round_double_fixed:
  assumes "x = of_int k * ulp x"
  shows "round_double x = x"
proof -
  have "x / ulp x = of_int k" using ulp_pos [of x] by (subst assms) simp
  then show ?thesis using assms by (simp add: round_double_def round_half_even_of_int)
qed

lemma round_double_of_nat:
  assumes "n < 2 ^ 53"
  shows "round_double (of_nat n) = of_nat n"
proof (cases "n = 0")
  case True
  then show ?thesis by (simp add: round_double_zero)
next
  case False
  define x where "x = rat_of_nat n"
  have x1: "1 \<le> x" using False by (simp add: x_def)
  then have xpos: "0 < x" by simp
  have "rat_of_nat n < rat_of_nat (2 ^ 53)" using assms by (simp only: of_nat_less_iff)
  then have xhi: "x < 2 ^ 53" by (simp add: x_def)
  define f where "f = floor_log2 x"
  from floor_log2_bounds [OF xpos]
  have lo: "2 powi f \<le> x" and hi: "x < 2 powi (f + 1)" by (simp_all add: f_def)
  have f0: "0 \<le> f"
  proof (rule ccontr)
    assume "\<not> 0 \<le> f"
    then have "f + 1 \<le> 0" by simp
    then have "(2::rat) powi (f + 1) \<le> 2 powi 0" by (intro power_int_increasing) simp_all
    with hi x1 show False by simp
  qed
  have f52: "f \<le> 52"
  proof (rule ccontr)
    assume "\<not> f \<le> 52"
    then have "53 \<le> f" by simp
    then have "(2::rat) powi 53 \<le> 2 powi f" by (intro power_int_increasing) simp_all
    with lo xhi show False by simp
  qed
  have ex: "exponent x = f" using f0 xpos by (simp add: exponent_def f_def)
  define j where "j = nat (52 - f)"
  have "f - 52 = - int j" using f52 by (simp add: j_def)
  then have u: "ulp x = 1 / 2 ^ j"
    by (simp only: ulp_def ex power_int_minus power_int_of_nat inverse_eq_divide)
  have "x = of_int (int n * 2 ^ j) * ulp x" unfolding u by (simp add: x_def)
  then have "round_double x = x" by (rule round_double_fixed)
  then show ?thesis by (simp add: x_def)
qed

lemma double_below_one:
  assumes "round_double r = r" "r < 1"
  shows "r \<le> 1 - 1 / 2 ^ 53"
proof (rule ccontr)
  assume "\<not> r \<le> 1 - 1 / 2 ^ 53"
  then have gt: "1 - 1 / 2 ^ 53 < r" by simp
  then have half: "1 / 2 \<le> r" by simp
  have e: "exponent r = - 1"
    by (rule exponent_eq) (use half assms(2) in \<open>simp_all add: power_int_minus\<close>)
  have u: "ulp r = 1 / 2 ^ 53" by (simp add: ulp_def e power_int_minus)
  define k where "k = round_half_even (r / ulp r)"
  have "r = of_int k * ulp r" using assms(1) by (simp add: round_double_def k_def)
  then have rk: "r = of_int k / 2 ^ 53" by (simp add: u)
  have "of_int k < (2::rat) ^ 53" using assms(2) by (simp add: rk)
  then have "k < 2 ^ 53" by (metis of_int_less_iff of_int_numeral of_int_power)
  moreover have "(2::rat) ^ 53 - 1 < of_int k" using gt by (simp add: rk field_simps)
  then have "rat_of_int (2 ^ 53 - 1) < of_int k" by simp
  then have "2 ^ 53 - 1 < k" by (simp only: of_int_less_iff)
  ultimately show False by simp
qed

section \<open>The constants of the generator, rounded\<close>

lemma floor_numeral_quotient: "\<lfloor>numeral a / numeral b :: rat\<rfloor> = numeral a div numeral b"
  by (metis floor_divide_of_int_eq of_int_numeral)

lemmas round_eval = round_half_even_def Let_def floor_numeral_quotient

lemma top3: "round_double ((1 - 1 / 2 ^ 53) * 3) = 6755399441055743 / 2251799813685248"
  by (subst round_double_eval [where e = 1]) (simp_all add: round_eval)

lemma top4: "round_double ((1 - 1 / 2 ^ 53) * 4) < 4"
  by (subst round_double_eval [where e = 1]) (simp_all add: round_eval)

lemma top44: "round_double ((1 - 1 / 2 ^ 53) * 44) < 44"
  by (subst round_double_eval [where e = 5]) (simp_all add: round_eval)

lemma top1000: "round_double ((1 - 1 / 2 ^ 53) * 1000) < 1000"
  by (subst round_double_eval [where e = 9]) (simp_all add: round_eval)

lemma top2500: "round_double ((1 - 1 / 2 ^ 53) * 2500) < 2500"
  by (subst round_double_eval [where e = 11]) (simp_all add: round_eval)








lemma round_half: "round_double (1 / 2) = 1 / 2"
  by (subst round_double_eval [where e = "- 1"]) (simp_all add: round_eval)

section \<open>Drawing random numbers; the loop\<close>

lemma draw_upper: "Math_random_ok r \<Longrightarrow> r \<le> 1 - 1 / 2 ^ 53"
  unfolding Math_random_ok_def by (blast intro: double_below_one)

lemma scaled_draw_bounds:
  assumes "Math_random_ok r" "0 \<le> c"
  shows "0 \<le> js_mul r c \<and> js_mul r c \<le> round_double ((1 - 1 / 2 ^ 53) * c)"
proof -
  have r0: "0 \<le> r" using assms(1) by (simp add: Math_random_ok_def)
  have "0 \<le> r * c" using r0 assms(2) by simp
  moreover have "r * c \<le> (1 - 1 / 2 ^ 53) * c"
    using draw_upper [OF assms(1)] assms(2) by (rule mult_right_mono)
  ultimately show ?thesis
    by (simp add: js_mul_def round_double_nonneg round_double_mono)
qed

lemma draw_floor:
  assumes "Math_random_ok r" "round_double ((1 - 1 / 2 ^ 53) * of_nat n) < of_nat n"
  shows "\<exists>k<n. Math_floor (js_mul r (of_nat n)) = of_nat k"
proof -
  from scaled_draw_bounds [OF assms(1), of "of_nat n"]
  have lo: "0 \<le> js_mul r (of_nat n)" and hi: "js_mul r (of_nat n) < of_nat n"
    using assms(2) by simp_all
  define k where "k = nat \<lfloor>js_mul r (of_nat n)\<rfloor>"
  have f0: "0 \<le> \<lfloor>js_mul r (of_nat n)\<rfloor>" using lo by simp
  have "\<lfloor>js_mul r (of_nat n)\<rfloor> < int n" using hi by (simp add: floor_less_iff)
  then have "k < n" using f0 unfolding k_def by linarith
  moreover have "Math_floor (js_mul r (of_nat n)) = of_nat k"
    using f0 by (simp add: Math_floor_def k_def)
  ultimately show ?thesis by blast
qed

lemma js_add_nat:
  assumes "a + b < 2 ^ 53"
  shows "js_add (of_nat a) (of_nat b) = of_nat (a + b)"
  using round_double_of_nat [OF assms] by (simp add: js_add_def)

lemma js_index_nat: "k < length xs \<Longrightarrow> js_index xs (of_nat k) = Some (xs ! k)"
  by (simp add: js_index_def)

lemma draw4:
  assumes "Math_random_ok r"
  shows "\<exists>k<4. Math_floor (js_mul r 4) = of_nat k"
  using draw_floor [OF assms, of 4] top4 by simp

lemma draw3:
  assumes "Math_random_ok r"
  shows "\<exists>k<3. Math_floor (js_mul r 3) = of_nat k"
  using draw_floor [OF assms, of 3] top3 by simp

lemma draw44:
  assumes "Math_random_ok r"
  shows "\<exists>k<44. Math_floor (js_mul r 44) = of_nat k"
  using draw_floor [OF assms, of 44] top44 by simp

lemma draw1000:
  assumes "Math_random_ok r"
  shows "\<exists>k<1000. Math_floor (js_mul r 1000) = of_nat k"
  using draw_floor [OF assms, of 1000] top1000 by simp

lemma draw2500:
  assumes "Math_random_ok r"
  shows "\<exists>k<2500. Math_floor (js_mul r 2500) = of_nat k"
  using draw_floor [OF assms, of 2500] top2500 by simp

lemma agent_defined:
  assumes "Math_random_ok r"
  shows "\<exists>a. js_index agents (Math_floor (js_mul r (of_nat (length agents)))) = Some a"
proof -
  from draw4 [OF assms] obtain k where "k < 4" "Math_floor (js_mul r 4) = of_nat k" by blast
  then show ?thesis by (simp add: agents_def js_index_nat)
qed

lemma propertyType_defined:
  assumes "Math_random_ok r"
  shows "\<exists>t \<in> set propertyTypes.
           js_index propertyTypes (Math_floor (js_mul r (of_nat (length propertyTypes)))) = Some t"
proof -
  from draw4 [OF assms] obtain k where k: "k < 4" "Math_floor (js_mul r 4) = of_nat k" by blast
  have len: "length propertyTypes = 4" by (simp add: propertyTypes_def)
  have "propertyTypes ! k \<in> set propertyTypes" using k(1) len by simp
  moreover have "js_index propertyTypes (Math_floor (js_mul r (of_nat (length propertyTypes))))
        = Some (propertyTypes ! k)"
    using k len by (simp add: js_index_nat)
  ultimately show ?thesis by blast
qed

lemma loop_body_throws:
  assumes "loop_body e c w = Inl err"
  shows "\<exists>n. js_index propertyTypes
               (Math_floor (js_mul (random_source e n) (of_nat (length propertyTypes)))) = None
           \<or> js_index agents
               (Math_floor (js_mul (random_source e n) (of_nat (length agents)))) = None"
  using assms
  by (auto simp: loop_body_def Let_def Math_random_def Date_now_def split_beta
           split: option.splits)

lemma loop_body_total:
  assumes "random_contract e"
  shows "\<exists>p w'. loop_body e c w = Inr (p, w')"
proof (cases "loop_body e c w")
  case (Inl err)
  from loop_body_throws [OF Inl] obtain n where
    "js_index propertyTypes
       (Math_floor (js_mul (random_source e n) (of_nat (length propertyTypes)))) = None
     \<or> js_index agents
       (Math_floor (js_mul (random_source e n) (of_nat (length agents)))) = None" ..
  moreover have "Math_random_ok (random_source e n)"
    using assms by (simp add: random_contract_def)
  ultimately show ?thesis
    using agent_defined [of "random_source e n"] propertyType_defined [of "random_source e n"]
    by auto
next
  case (Inr x)
  then show ?thesis by (cases x) simp
qed

lemma loop_body_city:
  assumes "loop_body e c w = Inr (p, w')"
  shows "city p = c \<and> state p = ''FL''"
  using assms
  by (auto simp: loop_body_def Let_def Math_random_def Date_now_def split_beta
           split: option.splits)

lemma for_loop_invariant:
  "(\<And>w p w'. loop_body e c w = Inr (p, w') \<Longrightarrow> Q p) \<Longrightarrow>
   for_loop e c count i ps w = Inr (qs, w'') \<Longrightarrow> list_all Q ps \<Longrightarrow> list_all Q qs"
proof (induction e c count i ps w rule: for_loop.induct)
  case (1 e c count i ps w)
  show ?case
  proof (cases "js_less (of_nat i) count")
    case True
    with "1.prems"(2) obtain p w' where
      body: "loop_body e c w = Inr (p, w')"
      and rest: "for_loop e c count (Suc i) (ps @ [p]) w' = Inr (qs, w'')"
      by (subst (asm) for_loop.simps) (auto split: sum.splits)
    have "list_all Q (ps @ [p])" using "1.prems"(3) "1.prems"(1) [OF body] by simp
    from "1.IH" [OF True body refl "1.prems"(1) rest this] show ?thesis .
  next
    case False
    with "1.prems" show ?thesis by (subst (asm) for_loop.simps) simp
  qed
qed

lemma iterations_step: "js_less (of_nat i) count \<Longrightarrow> iterations count i = Suc (iterations count (Suc i))"
proof (cases count)
  case NaN
  assume "js_less (of_nat i) count"
  with NaN show ?thesis by (simp add: js_less_def)
next
  case (Num n)
  assume "js_less (of_nat i) count"
  with Num have "rat_of_nat i < n" by (simp add: js_less_def)
  then have "int i < \<lceil>n\<rceil>" by (simp add: less_ceiling_iff)
  then show ?thesis by (simp add: iterations_def Num)
qed

lemma iterations_done: "\<not> js_less (of_nat i) count \<Longrightarrow> iterations count i = 0"
proof (cases count)
  case NaN
  then show ?thesis by (simp add: iterations_def)
next
  case (Num n)
  assume "\<not> js_less (of_nat i) count"
  with Num have "n \<le> rat_of_nat i" by (simp add: js_less_def)
  then have "\<lceil>n\<rceil> \<le> int i" by (simp add: ceiling_le_iff)
  then show ?thesis by (simp add: iterations_def Num)
qed

lemma for_loop_total:
  "random_contract e \<Longrightarrow>
   \<exists>qs w''. for_loop e c count i ps w = Inr (qs, w'')
     \<and> length qs = length ps + iterations count i"
proof (induction e c count i ps w rule: for_loop.induct)
  case (1 e c count i ps w)
  show ?case
  proof (cases "js_less (of_nat i) count")
    case True
    from loop_body_total [OF "1.prems", of c w] obtain p w' where
      body: "loop_body e c w = Inr (p, w')" by blast
    from "1.IH" [OF True body refl "1.prems"] obtain qs w'' where
      "for_loop e c count (Suc i) (ps @ [p]) w' = Inr (qs, w'')"
      "length qs = length (ps @ [p]) + iterations count (Suc i)" by blast
    then show ?thesis
      using True body by (subst for_loop.simps) (simp add: iterations_step)
  next
    case False
    then show ?thesis by (subst for_loop.simps) (simp add: iterations_done)
  qed
qed

lemma for_loop_none:
  "\<not> js_less 0 count \<Longrightarrow> for_loop e c count 0 [] w = Inr ([], w)"
  by (subst for_loop.simps) simp

section \<open>The fields of a generated record\<close>

lemma js_add_zero_nat: "k < 2 ^ 53 \<Longrightarrow> js_add (of_nat k) 0 = of_nat k"
  by (simp add: js_add_def round_double_of_nat)

lemma round_3_halves: "round_double (3 / 2) = 3 / 2"
  by (subst round_double_eval [where e = 0]) (simp_all add: round_eval)

lemma round_5_halves: "round_double (5 / 2) = 5 / 2"
  by (subst round_double_eval [where e = 1]) (simp_all add: round_eval)

lemma round_7_halves: "round_double (7 / 2) = 7 / 2"
  by (subst round_double_eval [where e = 1]) (simp_all add: round_eval)

lemma bedrooms_draw:
  assumes "loop_body e c w = Inr (p, w')"
  shows "\<exists>n. bedrooms p = js_add 2 (Math_floor (js_mul (random_source e n) 4))"
  using assms
  by (auto simp: loop_body_def Let_def Math_random_def Date_now_def split_beta
           split: option.splits)

lemma bathrooms_draw:
  assumes "loop_body e c w = Inr (p, w')"
  shows "bathrooms p =
           js_add (js_add 1 (Math_floor (js_mul (random_source e (Suc w)) 3)))
             (if 1 / 2 < random_source e (Suc (Suc w)) then 1 / 2 else 0)"
  using assms
  by (auto simp: loop_body_def Let_def Math_random_def Date_now_def split_beta
           split: option.splits split del: if_split)

lemma sqft_draw:
  assumes "loop_body e c w = Inr (p, w')"
  shows "\<exists>n. sqft p = js_add 1000 (Math_floor (js_mul (random_source e n) 2500))"
  using assms
  by (auto simp: loop_body_def Let_def Math_random_def Date_now_def split_beta
           split: option.splits)

lemma yearBuilt_draw:
  assumes "loop_body e c w = Inr (p, w')"
  shows "\<exists>n. yearBuilt p = js_add 1980 (Math_floor (js_mul (random_source e n) 44))"
  using assms
  by (auto simp: loop_body_def Let_def Math_random_def Date_now_def split_beta
           split: option.splits)

lemma zipCode_draw:
  assumes "loop_body e c w = Inr (p, w')"
  shows "\<exists>n. zipCode p =
           Number_toString (js_add 32700 (Math_floor (js_mul (random_source e n) 1000)))"
  using assms
  by (auto simp: loop_body_def Let_def Math_random_def Date_now_def split_beta
           split: option.splits)

lemma propertyType_draw:
  assumes "loop_body e c w = Inr (p, w')"
  shows "\<exists>n. propertyType p =
           js_index propertyTypes
             (Math_floor (js_mul (random_source e n) (of_nat (length propertyTypes))))"
  using assms
  by (auto simp: loop_body_def Let_def Math_random_def Date_now_def split_beta
           split: option.splits)




lemma bedrooms_range:
  assumes "random_contract e" "loop_body e c w = Inr (p, w')"
  shows "\<exists>k. bedrooms p = of_nat k \<and> 2 \<le> k \<and> k \<le> 5"
proof -
  from bedrooms_draw [OF assms(2)] obtain n where
    b: "bedrooms p = js_add 2 (Math_floor (js_mul (random_source e n) 4))" ..
  have "Math_random_ok (random_source e n)" using assms(1) by (simp add: random_contract_def)
  from draw4 [OF this] obtain k where
    k: "k < 4" "Math_floor (js_mul (random_source e n) 4) = of_nat k" by blast
  have "js_add (of_nat 2) (of_nat k) = of_nat (2 + k)" using k(1) by (intro js_add_nat) simp
  then have "bedrooms p = of_nat (2 + k)" using b k(2) by simp
  then show ?thesis using k(1) by (intro exI [of _ "2 + k"]) simp
qed

lemma sqft_range:
  assumes "random_contract e" "loop_body e c w = Inr (p, w')"
  shows "\<exists>k. sqft p = of_nat k \<and> 1000 \<le> k \<and> k \<le> 3500"
proof -
  from sqft_draw [OF assms(2)] obtain n where
    b: "sqft p = js_add 1000 (Math_floor (js_mul (random_source e n) 2500))" ..
  have "Math_random_ok (random_source e n)" using assms(1) by (simp add: random_contract_def)
  from draw2500 [OF this] obtain k where
    k: "k < 2500" "Math_floor (js_mul (random_source e n) 2500) = of_nat k" by blast
  have "js_add (of_nat 1000) (of_nat k) = of_nat (1000 + k)"
    using k(1) by (intro js_add_nat) simp
  then have "sqft p = of_nat (1000 + k)" using b k(2) by simp
  then show ?thesis using k(1) by (intro exI [of _ "1000 + k"]) simp
qed

lemma yearBuilt_range:
  assumes "random_contract e" "loop_body e c w = Inr (p, w')"
  shows "\<exists>k. yearBuilt p = of_nat k \<and> 1980 \<le> k \<and> k \<le> 2023"
proof -
  from yearBuilt_draw [OF assms(2)] obtain n where
    b: "yearBuilt p = js_add 1980 (Math_floor (js_mul (random_source e n) 44))" ..
  have "Math_random_ok (random_source e n)" using assms(1) by (simp add: random_contract_def)
  from draw44 [OF this] obtain k where
    k: "k < 44" "Math_floor (js_mul (random_source e n) 44) = of_nat k" by blast
  have "js_add (of_nat 1980) (of_nat k) = of_nat (1980 + k)"
    using k(1) by (intro js_add_nat) simp
  then have "yearBuilt p = of_nat (1980 + k)" using b k(2) by simp
  then show ?thesis using k(1) by (intro exI [of _ "1980 + k"]) simp
qed

lemma bathrooms_range:
  assumes "random_contract e" "loop_body e c w = Inr (p, w')"
  shows "\<exists>h. bathrooms p = of_nat h / 2 \<and> 2 \<le> h \<and> h \<le> 8"
proof -
  define n where "n = Suc w"
  define m where "m = Suc (Suc w)"
  from bathrooms_draw [OF assms(2)] have
    b: "bathrooms p =
          js_add (js_add 1 (Math_floor (js_mul (random_source e n) 3)))
            (if 1 / 2 < random_source e m then 1 / 2 else 0)" by (simp add: n_def m_def)
  have "Math_random_ok (random_source e n)" using assms(1) by (simp add: random_contract_def)
  from draw3 [OF this] obtain k where
    k: "k < 3" "Math_floor (js_mul (random_source e n) 3) = of_nat k" by blast
  have "js_add (of_nat 1) (of_nat k) = of_nat (1 + k)" using k(1) by (intro js_add_nat) simp
  then have whole: "js_add 1 (Math_floor (js_mul (random_source e n) 3)) = of_nat (1 + k)"
    using k(2) by simp
  show ?thesis
  proof (cases "1 / 2 < random_source e m")
    case False
    have "js_add (of_nat (1 + k)) 0 = of_nat (1 + k)" using k(1) by (intro js_add_zero_nat) simp
    then have "bathrooms p = of_nat (2 * (1 + k)) / 2" using b whole False by simp
    then show ?thesis using k(1) by (intro exI [of _ "2 * (1 + k)"]) simp
  next
    case True
    have "k = 0 \<or> k = 1 \<or> k = 2" using k(1) by auto
    then have "js_add (of_nat (1 + k)) (1 / 2) = of_nat (2 * (1 + k) + 1) / 2"
      by (auto simp: js_add_def round_3_halves round_5_halves round_7_halves)
    then have "bathrooms p = of_nat (2 * (1 + k) + 1) / 2" using b whole True by simp
    then show ?thesis using k(1) by (intro exI [of _ "2 * (1 + k) + 1"]) simp
  qed
qed

lemma propertyType_range:
  assumes "random_contract e" "loop_body e c w = Inr (p, w')"
  shows "\<exists>t \<in> set propertyTypes. propertyType p = Some t"
proof -
  from propertyType_draw [OF assms(2)] obtain n where
    b: "propertyType p =
          js_index propertyTypes
            (Math_floor (js_mul (random_source e n) (of_nat (length propertyTypes))))" ..
  have "Math_random_ok (random_source e n)" using assms(1) by (simp add: random_contract_def)
  from propertyType_defined [OF this] show ?thesis using b by simp
qed

lemma digit_char_digit: "d < 10 \<Longrightarrow> digit_char d \<in> set ''0123456789''"
  unfolding digit_char_def by (rule nth_mem) simp

lemma decimal_digits: "set (decimal n) \<subseteq> set ''0123456789''"
proof (induction n rule: decimal.induct)
  case (1 n)
  show ?case
  proof (cases "n < 10")
    case True
    then show ?thesis using digit_char_digit [of n] by (subst decimal.simps) simp
  next
    case False
    have "n mod 10 < 10" by simp
    from digit_char_digit [OF this] "1.IH" [OF False] False
    show ?thesis by (subst decimal.simps) simp
  qed
qed

lemma decimal_length:
  "10 ^ k \<le> n \<Longrightarrow> n < 10 ^ Suc k \<Longrightarrow> length (decimal n) = Suc k"
proof (induction k arbitrary: n)
  case 0
  then show ?case by (subst decimal.simps) simp
next
  case (Suc k)
  have "10 \<le> n" using Suc.prems(1) by (metis le_trans one_le_numeral one_le_power power_Suc mult.right_neutral mult_le_mono2)
  then have big: "\<not> n < 10" by simp
  have lo: "10 ^ k \<le> n div 10" using Suc.prems(1) by (simp add: less_eq_div_iff_mult_less_eq mult.commute)
  have hi: "n div 10 < 10 ^ Suc k" using Suc.prems(2) by (simp add: div_less_iff_less_mult mult.commute)
  from Suc.IH [OF lo hi] big show ?case by (subst decimal.simps) simp
qed

lemma Number_toString_nat: "Number_toString (of_nat n) = decimal n"
  by (simp add: Number_toString_def)

lemma zipCode_range:
  assumes "random_contract e" "loop_body e c w = Inr (p, w')"
  shows "\<exists>z. zipCode p = decimal z \<and> 32700 \<le> z \<and> z \<le> 33699"
proof -
  from zipCode_draw [OF assms(2)] obtain n where
    b: "zipCode p = Number_toString (js_add 32700 (Math_floor (js_mul (random_source e n) 1000)))" ..
  have "Math_random_ok (random_source e n)" using assms(1) by (simp add: random_contract_def)
  from draw1000 [OF this] obtain k where
    k: "k < 1000" "Math_floor (js_mul (random_source e n) 1000) = of_nat k" by blast
  have "js_add (of_nat 32700) (of_nat k) = of_nat (32700 + k)"
    using k(1) by (intro js_add_nat) simp
  then have "zipCode p = decimal (32700 + k)"
    using b k(2) Number_toString_nat [of "32700 + k"] by simp
  then show ?thesis using k(1) by (intro exI [of _ "32700 + k"]) simp
qed

lemma five_digits: "10000 \<le> z \<Longrightarrow> z < 100000 \<Longrightarrow> length (decimal z) = 5"
  using decimal_length [of 4 z] by simp



section \<open>The generator and the adapter\<close>

lemma iterations_nat: "iterations (Num (of_nat n)) 0 = n"
  by (simp add: iterations_def)

lemma generateProperties_all:
  assumes "random_contract e"
    and "\<And>w p w'. loop_body e c w = Inr (p, w') \<Longrightarrow> Q p"
  shows "\<exists>ps w'. generateProperties e c count_arg w = Inr (ps, w')
           \<and> length ps = iterations (case count_arg of None \<Rightarrow> Num 10 | Some n \<Rightarrow> n) 0
           \<and> list_all Q ps"
proof -
  define count where "count = (case count_arg of None \<Rightarrow> Num 10 | Some n \<Rightarrow> n)"
  from for_loop_total [OF assms(1), of c count 0 "[]" w] obtain ps w' where
    run: "for_loop e c count 0 [] w = Inr (ps, w')" and len: "length ps = iterations count 0"
    by auto
  have "list_all Q ps"
    using for_loop_invariant [of e c Q count 0 "[]" w ps w'] assms(2) run by simp
  then show ?thesis using run len by (simp add: generateProperties_def count_def)
qed

lemma generateProperties_none:
  "m \<le> 0 \<Longrightarrow> generateProperties e c (Some (Num m)) w = Inr ([], w)"
  by (simp add: generateProperties_def for_loop_none js_less_def)

lemma map_constant: "list_all (\<lambda>p. f p = c) ps \<Longrightarrow> map f ps = replicate (length ps) c"
  by (induction ps) simp_all

lemma generateProperties_city:
  assumes "random_contract e"
  shows "\<exists>ps w'. generateProperties e c (Some (Num (of_nat n))) w = Inr (ps, w')
           \<and> length ps = n \<and> list_all (\<lambda>p. city p = c \<and> state p = ''FL'') ps"
  using generateProperties_all [OF assms, of c "\<lambda>p. city p = c \<and> state p = ''FL''"
          "Some (Num (of_nat n))" w]
  by (simp add: loop_body_city iterations_nat)

lemma all_cities_total:
  assumes "random_contract e"
  shows "\<exists>qs w'. all_cities e cs (of_nat n) ps w = Inr (qs, w')
           \<and> map city qs = map city ps @ concat (map (replicate n) cs)"
proof (induction cs arbitrary: ps w)
  case Nil
  show ?case by simp
next
  case (Cons c cs)
  from generateProperties_city [OF assms, of c n w] obtain gs w1 where
    g: "generateProperties e c (Some (Num (of_nat n))) w = Inr (gs, w1)"
    and len: "length gs = n"
    and all: "list_all (\<lambda>p. city p = c \<and> state p = ''FL'') gs" by blast
  have "list_all (\<lambda>p. city p = c) gs" using all by (simp add: list_all_iff)
  from map_constant [OF this] len have m: "map city gs = replicate n c" by simp
  from Cons.IH [of "ps @ gs" w1] obtain qs w' where
    "all_cities e cs (of_nat n) (ps @ gs) w1 = Inr (qs, w')"
    "map city qs = map city (ps @ gs) @ concat (map (replicate n) cs)" by blast
  then show ?case using g m by simp
qed

lemma all_cities_none:
  "m \<le> 0 \<Longrightarrow> all_cities e cs m ps w = Inr (ps, w)"
  by (induction cs arbitrary: ps w) (simp_all add: generateProperties_none)

lemma length_concat_replicate: "length (concat (map (replicate n) cs)) = length cs * n"
  by (induction cs) simp_all

lemma round_double_numeral:
  "numeral k < (2::nat) ^ 53 \<Longrightarrow> round_double (numeral k) = numeral k"
  using round_double_of_nat [of "numeral k"] by simp

lemma parseInt_10: "parseInt ''10'' = Num 10"
  by (simp add: parseInt_def is_white_space_def is_digit_of_def digit_value_def
        digits_value_def round_double_numeral)


lemma round_minus_5: "round_double (- 5) = - 5"
  by (subst round_double_eval [where e = 2]) (simp_all add: round_eval)

lemma parseInt_minus_5: "parseInt ''-5'' = Num (- 5)"
  by (simp add: parseInt_def is_white_space_def is_digit_of_def digit_value_def
        digits_value_def round_minus_5)



lemma maxProperties_absent: "query_limit req = None \<Longrightarrow> maxProperties req = 10"
  by (simp add: maxProperties_def parseInt_10)

lemma maxProperties_present:
  "query_limit req = Some l \<Longrightarrow>
   maxProperties req = (case parseInt l of NaN \<Rightarrow> 10 | Num n \<Rightarrow> if n = 0 then 10 else n)"
  by (simp add: maxProperties_def)

lemma scrape_v2_all:
  assumes "http_method req = ''GET''" "query_all req = Some ''true''"
  shows "scrape_v2 e req w =
     (case all_cities e CITIES (maxProperties req) [] w of
        Inl err \<Rightarrow> failure err
      | Inr (properties, w') \<Rightarrow> render req properties)"
  using assms by (simp add: scrape_v2_def)

lemma scrape_v2_single:
  assumes "http_method req = ''GET''" "query_all req \<noteq> Some ''true''"
    "query_city req = Some c" "c \<noteq> []"
  shows "scrape_v2 e req w =
     (case generateProperties e c (Some (Num (maxProperties req))) w of
        Inl err \<Rightarrow> failure err
      | Inr (properties, w') \<Rightarrow> render req properties)"
  using assms by (simp add: scrape_v2_def)

lemma scrape_v2_usage:
  assumes "http_method req = ''GET''" "query_all req \<noteq> Some ''true''"
    "query_city req = None \<or> query_city req = Some []"
  shows "scrape_v2 e req w = usage"
  using assms by (auto simp: scrape_v2_def)

lemma length_CITIES: "length CITIES = 15"
  by (simp add: CITIES_def)

lemma scrape_v2_all_count:
  assumes "random_contract e" "http_method req = ''GET''" "query_all req = Some ''true''"
    "maxProperties req = of_nat n"
  shows "\<exists>ps. scrape_v2 e req w = render req ps \<and> length ps = 15 * n
           \<and> map city ps = concat (map (replicate n) CITIES)"
proof -
  from all_cities_total [OF assms(1), of CITIES n "[]" w] obtain ps w' where
    run: "all_cities e CITIES (of_nat n) [] w = Inr (ps, w')"
    and m: "map city ps = concat (map (replicate n) CITIES)" by auto
  have "length (map city ps) = 15 * n"
    unfolding m by (simp add: length_concat_replicate length_CITIES)
  then have "length ps = 15 * n" by simp
  then show ?thesis
    using run m by (intro exI [of _ ps]) (simp add: scrape_v2_all [OF assms(2,3)] assms(4))
qed


lemma render_json:
  "query_format req \<noteq> Some ''csv'' \<Longrightarrow>
   render req ps = \<lparr>status = 200, headers = cors,
                     body = SuccessJson True (of_nat (length ps))
                              (or_else (query_city req) ''all'') ps\<rparr>"
  by (auto simp: render_def split: option.splits)


section \<open>Rendering\<close>










lemma fixed_env_contract: "Math_random_ok r \<Longrightarrow> random_contract (fixed_env r)"
  by (simp add: random_contract_def fixed_env_def)

lemma half_ok: "Math_random_ok (1 / 2)"
  by (simp add: Math_random_ok_def round_half)



lemma scrape_get:
  assumes "http_method req = ''GET''"
  shows "status (scrape e req w) = 200
     \<and> (query_format req \<noteq> Some ''csv'' \<longrightarrow>
          envelope_city (body (scrape e req w)) = Some (or_else (query_city req) ''Orlando''))"
  using assms
  by (auto simp: scrape_def Let_def split_beta envelope_city_def split: option.splits)

lemma generateProperties_succeeds:
  assumes "random_contract e"
  shows "\<exists>ps w'. generateProperties e c count_arg w = Inr (ps, w')"
  using generateProperties_all [OF assms, of c "\<lambda>p. True" count_arg w] by blast

lemma all_cities_succeeds:
  assumes "random_contract e"
  shows "\<exists>qs w'. all_cities e cs m ps w = Inr (qs, w')"
proof (induction cs arbitrary: ps w)
  case Nil
  show ?case by simp
next
  case (Cons c cs)
  from generateProperties_succeeds [OF assms, of c "Some (Num m)" w] obtain gs w1 where
    g: "generateProperties e c (Some (Num m)) w = Inr (gs, w1)" by blast
  from Cons.IH [of "ps @ gs" w1] show ?case using g by simp
qed

lemma scrape_v2_success:
  assumes "random_contract e" "http_method req = ''GET''"
    "query_all req = Some ''true'' \<or> (\<exists>c. query_city req = Some c \<and> c \<noteq> [])"
  shows "\<exists>ps. scrape_v2 e req w = render req ps
           \<and> (if query_all req = Some ''true''
               then \<exists>w'. all_cities e CITIES (maxProperties req) [] w = Inr (ps, w')
               else \<exists>c w'. query_city req = Some c
                      \<and> generateProperties e c (Some (Num (maxProperties req))) w = Inr (ps, w'))"
proof (cases "query_all req = Some ''true''")
  case True
  from all_cities_succeeds [OF assms(1), of CITIES "maxProperties req" "[]" w] obtain ps w' where
    run: "all_cities e CITIES (maxProperties req) [] w = Inr (ps, w')" by blast
  show ?thesis
    using run True by (intro exI [of _ ps]) (auto simp: scrape_v2_all [OF assms(2) True])
next
  case False
  with assms(3) obtain c where c: "query_city req = Some c" "c \<noteq> []" by blast
  from generateProperties_succeeds [OF assms(1), of c "Some (Num (maxProperties req))" w]
  obtain ps w' where
    run: "generateProperties e c (Some (Num (maxProperties req))) w = Inr (ps, w')" by blast
  show ?thesis
    using run False c
    by (intro exI [of _ ps]) (auto simp: scrape_v2_single [OF assms(2) False c])
qed


lemma loop_body_ranges:
  assumes "random_contract e" "loop_body e c w = Inr (p, w')"
  shows "(\<exists>k. bedrooms p = of_nat k \<and> 2 \<le> k \<and> k \<le> 5)
    \<and> (\<exists>h. bathrooms p = of_nat h / 2 \<and> 2 \<le> h \<and> h \<le> 8)
    \<and> (\<exists>k. sqft p = of_nat k \<and> 1000 \<le> k \<and> k \<le> 3500)
    \<and> (\<exists>k. yearBuilt p = of_nat k \<and> 1980 \<le> k \<and> k \<le> 2023)
    \<and> (\<exists>z. zipCode p = decimal z \<and> 32700 \<le> z \<and> z \<le> 33699
           \<and> length (zipCode p) = 5 \<and> set (zipCode p) \<subseteq> set ''0123456789'')
    \<and> (\<exists>t \<in> set propertyTypes. propertyType p = Some t)"
proof -
  from zipCode_range [OF assms] obtain z where
    z: "zipCode p = decimal z" "32700 \<le> z" "z \<le> 33699" by blast
  have "length (decimal z) = 5" using z(2,3) by (intro five_digits) simp_all
  then have Z: "\<exists>z. zipCode p = decimal z \<and> 32700 \<le> z \<and> z \<le> 33699
           \<and> length (zipCode p) = 5 \<and> set (zipCode p) \<subseteq> set ''0123456789''"
    using z decimal_digits [of z] by (intro exI [of _ z]) simp
  show ?thesis
    using bedrooms_range [OF assms] bathrooms_range [OF assms] sqft_range [OF assms]
      yearBuilt_range [OF assms] propertyType_range [OF assms] Z
    by blast
qed

lemma round_lit_82: "js_lit (82 / 100) = 7385903388887613 / 9007199254740992"
  unfolding js_lit_def
  by (subst round_double_eval [where e = "- 1"]) (simp_all add: round_eval)

lemma rounding_is_visible: "Math_floor (js_mul 150000 (js_lit (82 / 100))) = 122999"
  unfolding js_mul_def round_lit_82 Math_floor_def
  by (subst round_double_eval [where e = 16]) (simp_all add: round_eval)

section \<open>The claims\<close>

text \<open>
  Claim C1. For every string \<open>city\<close> and every non-negative integer \<open>count\<close>,
  \<open>generateProperties(city, count)\<close> returns, without throwing, a sequence of
  exactly \<open>count\<close> records, each with its \<open>city\<close> field equal to the argument
  and its \<open>state\<close> field equal to \<open>FL\<close>. Not throwing rests on what
  \<open>Math.random()\<close> promises: a double in the interval from 0 to 1, 1 excluded.
\<close>

theorem generateProperties_count:
  assumes "random_contract e"
  shows "\<exists>ps w'. generateProperties e c (Some (Num (of_nat n))) w = Inr (ps, w')
           \<and> length ps = n \<and> (\<forall>p \<in> set ps. city p = c \<and> state p = ''FL'')"
  using generateProperties_city [OF assms, of c n w] by (auto simp: list_all_iff)

theorem generateProperties_count_witness:
  "random_contract (fixed_env (1 / 2))
   \<and> (\<exists>ps w'. generateProperties (fixed_env (1 / 2)) ''Orlando'' (Some (Num (of_nat 3))) 0
                  = Inr (ps, w')
          \<and> length ps = 3 \<and> (\<forall>p \<in> set ps. city p = ''Orlando'' \<and> state p = ''FL''))"
proof -
  have c: "random_contract (fixed_env (1 / 2))" by (rule fixed_env_contract [OF half_ok])
  from generateProperties_count [OF c, of "''Orlando''" 3 0] c show ?thesis by blast
qed



text \<open>
  Claim C3. Every record that \<open>generateProperties\<close> produces keeps the field
  ranges: \<open>bedrooms\<close> is an integer from 2 to 5; \<open>bathrooms\<close> is a multiple
  of one half from 1 to 4; \<open>sqft\<close> is an integer from 1000 to 3500;
  \<open>yearBuilt\<close> is an integer from 1980 to 2023; \<open>zipCode\<close> is the five-digit
  decimal form of a number from 32700 to 33699; \<open>propertyType\<close> is one of
  Single Family, Condo, Townhouse and Multi-Family.
\<close>

theorem field_ranges:
  assumes "random_contract e"
  shows "\<exists>ps w'. generateProperties e c count w = Inr (ps, w')
    \<and> length ps = iterations (case count of None \<Rightarrow> Num 10 | Some n \<Rightarrow> n) 0
    \<and> (\<forall>p \<in> set ps.
          (\<exists>k. bedrooms p = of_nat k \<and> 2 \<le> k \<and> k \<le> 5)
        \<and> (\<exists>h. bathrooms p = of_nat h / 2 \<and> 1 \<le> bathrooms p \<and> bathrooms p \<le> 4)
        \<and> (\<exists>k. sqft p = of_nat k \<and> 1000 \<le> k \<and> k \<le> 3500)
        \<and> (\<exists>k. yearBuilt p = of_nat k \<and> 1980 \<le> k \<and> k \<le> 2023)
        \<and> (\<exists>z. zipCode p = decimal z \<and> 32700 \<le> z \<and> z \<le> 33699
               \<and> length (zipCode p) = 5 \<and> set (zipCode p) \<subseteq> set ''0123456789'')
        \<and> propertyType p \<in> {Some ''Single Family'', Some ''Condo'', Some ''Townhouse'',
                               Some ''Multi-Family''})"
proof -
  have step: "(\<exists>k. bedrooms p = of_nat k \<and> 2 \<le> k \<and> k \<le> 5)
        \<and> (\<exists>h. bathrooms p = of_nat h / 2 \<and> 1 \<le> bathrooms p \<and> bathrooms p \<le> 4)
        \<and> (\<exists>k. sqft p = of_nat k \<and> 1000 \<le> k \<and> k \<le> 3500)
        \<and> (\<exists>k. yearBuilt p = of_nat k \<and> 1980 \<le> k \<and> k \<le> 2023)
        \<and> (\<exists>z. zipCode p = decimal z \<and> 32700 \<le> z \<and> z \<le> 33699
               \<and> length (zipCode p) = 5 \<and> set (zipCode p) \<subseteq> set ''0123456789'')
        \<and> propertyType p \<in> {Some ''Single Family'', Some ''Condo'', Some ''Townhouse'',
                               Some ''Multi-Family''}"
    if body: "loop_body e c w0 = Inr (p, w1)" for w0 p w1
  proof -
    note r = loop_body_ranges [OF assms body]
    from r obtain h where h: "bathrooms p = of_nat h / 2" "2 \<le> h" "h \<le> 8" by blast
    have "rat_of_nat 2 \<le> of_nat h" "rat_of_nat h \<le> of_nat 8"
      using h(2,3) by (simp_all only: of_nat_le_iff)
    then have "1 \<le> bathrooms p \<and> bathrooms p \<le> 4" by (simp add: h(1))
    then have B: "\<exists>h. bathrooms p = of_nat h / 2 \<and> 1 \<le> bathrooms p \<and> bathrooms p \<le> 4"
      using h(1) by blast
    from r obtain t where "t \<in> set propertyTypes" "propertyType p = Some t" by blast
    then have T: "propertyType p \<in> {Some ''Single Family'', Some ''Condo'', Some ''Townhouse'',
                               Some ''Multi-Family''}"
      by (auto simp: propertyTypes_def)
    show ?thesis using r B T by blast
  qed
  from generateProperties_all [OF assms, of c _ count w, OF step]
  show ?thesis unfolding list_all_iff .
qed

theorem field_ranges_witness:
  "random_contract (fixed_env (1 / 2))
   \<and> (\<exists>ps w'. generateProperties (fixed_env (1 / 2)) ''Tampa'' (Some (Num 2)) 0 = Inr (ps, w')
    \<and> length ps = 2
    \<and> (\<forall>p \<in> set ps.
          (\<exists>k. bedrooms p = of_nat k \<and> 2 \<le> k \<and> k \<le> 5)
        \<and> (\<exists>h. bathrooms p = of_nat h / 2 \<and> 1 \<le> bathrooms p \<and> bathrooms p \<le> 4)
        \<and> (\<exists>k. sqft p = of_nat k \<and> 1000 \<le> k \<and> k \<le> 3500)
        \<and> (\<exists>k. yearBuilt p = of_nat k \<and> 1980 \<le> k \<and> k \<le> 2023)
        \<and> (\<exists>z. zipCode p = decimal z \<and> 32700 \<le> z \<and> z \<le> 33699
               \<and> length (zipCode p) = 5 \<and> set (zipCode p) \<subseteq> set ''0123456789'')
        \<and> propertyType p \<in> {Some ''Single Family'', Some ''Condo'', Some ''Townhouse'',
                               Some ''Multi-Family''}))"
proof -
  have c: "random_contract (fixed_env (1 / 2))" by (rule fixed_env_contract [OF half_ok])
  have i: "iterations (Num 2) 0 = 2" by (simp add: iterations_def)
  from field_ranges [OF c, of "''Tampa''" "Some (Num 2)" 0] c show ?thesis
    by (simp add: i)
qed

text \<open>
  Claim C4. For every GET request with \<open>all=true\<close> and a limit that parses to
  a positive integer \<open>L\<close>, the adapter calls the synthesizer once for each
  entry of the roster of 15 cities, in the order of the roster, and concatenates
  the results in that order: the properties number \<open>15 * L\<close> and their
  cities are the roster with each name repeated \<open>L\<close> times.
\<close>

theorem all_cities_in_roster_order:
  assumes "random_contract e" "http_method req = ''GET''" "query_all req = Some ''true''"
    "query_limit req = Some l" "parseInt l = Num (of_nat L)" "0 < L"
  shows "\<exists>ps w'. all_cities e CITIES (of_nat L) [] w = Inr (ps, w')
    \<and> scrape_v2 e req w = render req ps
    \<and> length CITIES = 15 \<and> length ps = 15 * L
    \<and> map city ps = concat (map (replicate L) CITIES)
    \<and> (query_format req \<noteq> Some ''csv'' \<longrightarrow>
          body (scrape_v2 e req w)
            = SuccessJson True (of_nat (15 * L)) (or_else (query_city req) ''all'') ps)"
proof -
  have m: "maxProperties req = of_nat L"
    using assms(4,5,6) by (simp add: maxProperties_present)
  from all_cities_total [OF assms(1), of CITIES L "[]" w] obtain ps w' where
    run: "all_cities e CITIES (of_nat L) [] w = Inr (ps, w')"
    and c: "map city ps = concat (map (replicate L) CITIES)" by auto
  have "length (map city ps) = 15 * L"
    unfolding c by (simp add: length_concat_replicate length_CITIES)
  then have len: "length ps = 15 * L" by simp
  have r: "scrape_v2 e req w = render req ps"
    using run by (simp add: scrape_v2_all [OF assms(2,3)] m)
  have "query_format req \<noteq> Some ''csv'' \<longrightarrow>
          body (scrape_v2 e req w)
            = SuccessJson True (of_nat (15 * L)) (or_else (query_city req) ''all'') ps"
    using len by (simp add: r render_json)
  then show ?thesis using run r len c length_CITIES by blast
qed

theorem all_cities_in_roster_order_witness:
  "random_contract (fixed_env (1 / 2))
   \<and> parseInt ''10'' = Num (of_nat 10) \<and> (0::nat) < 10
   \<and> (\<exists>ps w'. all_cities (fixed_env (1 / 2)) CITIES (of_nat 10) [] 0 = Inr (ps, w')
    \<and> scrape_v2 (fixed_env (1 / 2))
         \<lparr>http_method = ''GET'', query_city = None, query_limit = Some ''10'',
          query_all = Some ''true'', query_format = None\<rparr> 0 = render
         \<lparr>http_method = ''GET'', query_city = None, query_limit = Some ''10'',
          query_all = Some ''true'', query_format = None\<rparr> ps
    \<and> length ps = 15 * 10
    \<and> map city ps = concat (map (replicate 10) CITIES))"
proof -
  have c: "random_contract (fixed_env (1 / 2))" by (rule fixed_env_contract [OF half_ok])
  have p: "parseInt ''10'' = Num (of_nat 10)" by (simp add: parseInt_10)
  from all_cities_in_roster_order [OF c _ _ _ p, of
      "\<lparr>http_method = ''GET'', query_city = None, query_limit = Some ''10'',
        query_all = Some ''true'', query_format = None\<rparr>" 0]
  show ?thesis using c p by simp blast
qed

text \<open>
  Claim C5, as amended. For every GET request to \<open>/api/scrape-v2\<close> that has
  no \<open>city\<close> parameter, or an empty one, and does not have \<open>all=true\<close>, the
  adapter answers 400 with a body whose \<open>usage\<close> field names both query
  shapes. The older handler of \<open>/api/scrape\<close> has no such error: \<open>city\<close> is
  optional there.
\<close>

theorem missing_selection_is_usage_error:
  assumes "http_method req = ''GET''" "query_all req \<noteq> Some ''true''"
    "query_city req = None \<or> query_city req = Some []"
  shows "scrape_v2 e req w =
     \<lparr>status = 400, headers = cors,
      body = UsageJson ''Missing parameter'' ''/api/scrape-v2?city=Orlando&limit=50''
               ''/api/scrape-v2?all=true&limit=10''\<rparr>"
  using scrape_v2_usage [OF assms] by (simp add: usage_def)

theorem missing_selection_is_usage_error_witness:
  "http_method \<lparr>http_method = ''GET'', query_city = None, query_limit = Some ''5'',
                  query_all = None, query_format = None\<rparr> = ''GET''
   \<and> scrape_v2 (fixed_env (1 / 2))
        \<lparr>http_method = ''GET'', query_city = None, query_limit = Some ''5'',
         query_all = None, query_format = None\<rparr> 0 =
     \<lparr>status = 400, headers = cors,
      body = UsageJson ''Missing parameter'' ''/api/scrape-v2?city=Orlando&limit=50''
               ''/api/scrape-v2?all=true&limit=10''\<rparr>"
  using missing_selection_is_usage_error [of
      "\<lparr>http_method = ''GET'', query_city = None, query_limit = Some ''5'',
        query_all = None, query_format = None\<rparr>" "fixed_env (1 / 2)" 0]
  by simp

text \<open>
  The claim as it was stated covers the handler of \<open>api/scrape.js\<close> too. There
  a GET request with no parameter at all is answered 200, for the city Orlando.
\<close>

theorem older_handler_defaults_counterexample:
  "status (scrape (fixed_env (1 / 2))
             \<lparr>http_method = ''GET'', query_city = None, query_limit = None,
              query_all = None, query_format = None\<rparr> 0) = 200
   \<and> envelope_city (body (scrape (fixed_env (1 / 2))
             \<lparr>http_method = ''GET'', query_city = None, query_limit = None,
              query_all = None, query_format = None\<rparr> 0)) = Some ''Orlando''"
  using scrape_get [of
      "\<lparr>http_method = ''GET'', query_city = None, query_limit = None,
        query_all = None, query_format = None\<rparr>" "fixed_env (1 / 2)" 0]
  by (simp add: or_else_def)



text \<open>
  Claim C7, as amended. Every successful GET request whose format is not
  \<open>csv\<close> is answered 200 with the body
  \<open>{success: true, count, city, properties}\<close>, where \<open>count\<close> is the length
  of \<open>properties\<close> and \<open>city\<close> is the \<open>city\<close> parameter when that is a
  non-empty string and the token \<open>all\<close> otherwise. So \<open>city\<close> is the
  requested name in single-city mode, and it is \<open>all\<close> in all-cities mode when
  no city was sent along with \<open>all=true\<close>.
\<close>

theorem json_envelope:
  assumes "random_contract e" "http_method req = ''GET''" "query_format req \<noteq> Some ''csv''"
    "query_all req = Some ''true'' \<or> (\<exists>c. query_city req = Some c \<and> c \<noteq> [])"
  shows "\<exists>ps.
      (if query_all req = Some ''true''
       then \<exists>w'. all_cities e CITIES (maxProperties req) [] w = Inr (ps, w')
       else \<exists>c w'. query_city req = Some c
              \<and> generateProperties e c (Some (Num (maxProperties req))) w = Inr (ps, w'))
    \<and> scrape_v2 e req w =
        \<lparr>status = 200, headers = cors,
         body = SuccessJson True (of_nat (length ps)) (or_else (query_city req) ''all'') ps\<rparr>
    \<and> (\<forall>c. query_city req = Some c \<and> c \<noteq> [] \<longrightarrow> or_else (query_city req) ''all'' = c)
    \<and> (query_city req = None \<or> query_city req = Some []
          \<longrightarrow> or_else (query_city req) ''all'' = ''all'')"
proof -
  from scrape_v2_success [OF assms(1,2,4), of w] obtain ps where
    r: "scrape_v2 e req w = render req ps"
    and s: "if query_all req = Some ''true''
       then \<exists>w'. all_cities e CITIES (maxProperties req) [] w = Inr (ps, w')
       else \<exists>c w'. query_city req = Some c
              \<and> generateProperties e c (Some (Num (maxProperties req))) w = Inr (ps, w')"
    by blast
  note resp = r [unfolded render_json [OF assms(3)]]
  have a: "\<forall>c. query_city req = Some c \<and> c \<noteq> [] \<longrightarrow> or_else (query_city req) ''all'' = c"
    by (simp add: or_else_def)
  have b: "query_city req = None \<or> query_city req = Some []
          \<longrightarrow> or_else (query_city req) ''all'' = ''all''"
    by (auto simp: or_else_def)
  show ?thesis using s resp a b by (intro exI [of _ ps]) blast
qed

theorem json_envelope_witness:
  "random_contract (fixed_env (1 / 2))
   \<and> (\<exists>ps.
      (\<exists>c w'. Some ''Orlando'' = Some c
              \<and> generateProperties (fixed_env (1 / 2)) c (Some (Num 3)) 0 = Inr (ps, w'))
    \<and> scrape_v2 (fixed_env (1 / 2))
         \<lparr>http_method = ''GET'', query_city = Some ''Orlando'', query_limit = Some ''3'',
          query_all = None, query_format = None\<rparr> 0 =
        \<lparr>status = 200, headers = cors,
         body = SuccessJson True (of_nat (length ps)) ''Orlando'' ps\<rparr>)"
proof -
  have c: "random_contract (fixed_env (1 / 2))" by (rule fixed_env_contract [OF half_ok])
  have m: "maxProperties
      \<lparr>http_method = ''GET'', query_city = Some ''Orlando'', query_limit = Some ''3'',
       query_all = None, query_format = None\<rparr> = 3"
    by (simp add: maxProperties_def parseInt_def is_white_space_def is_digit_of_def
          digit_value_def digits_value_def round_double_numeral)
  from json_envelope [OF c, of
      "\<lparr>http_method = ''GET'', query_city = Some ''Orlando'', query_limit = Some ''3'',
        query_all = None, query_format = None\<rparr>" 0]
  obtain ps where
    "\<exists>c w'. Some ''Orlando'' = Some c
        \<and> generateProperties (fixed_env (1 / 2)) c (Some (Num 3)) 0 = Inr (ps, w')"
    "scrape_v2 (fixed_env (1 / 2))
         \<lparr>http_method = ''GET'', query_city = Some ''Orlando'', query_limit = Some ''3'',
          query_all = None, query_format = None\<rparr> 0 =
        \<lparr>status = 200, headers = cors,
         body = SuccessJson True (of_nat (length ps)) ''Orlando'' ps\<rparr>"
    by (auto simp: m or_else_def)
  then show ?thesis using c by blast
qed

text \<open>
  The claim as it was stated fails when a request carries both \<open>all=true\<close>
  and a city: the properties are those of all 15 cities, 150 with the default
  limit, and the envelope names the city that was sent.
\<close>

theorem json_envelope_counterexample:
  "envelope_count (body (scrape_v2 (fixed_env (1 / 2))
       \<lparr>http_method = ''GET'', query_city = Some ''Tampa'', query_limit = None,
        query_all = Some ''true'', query_format = None\<rparr> 0)) = Some 150
   \<and> envelope_city (body (scrape_v2 (fixed_env (1 / 2))
       \<lparr>http_method = ''GET'', query_city = Some ''Tampa'', query_limit = None,
        query_all = Some ''true'', query_format = None\<rparr> 0)) = Some ''Tampa''
   \<and> ''Tampa'' \<noteq> ''all''"
proof -
  have c: "random_contract (fixed_env (1 / 2))" by (rule fixed_env_contract [OF half_ok])
  have m: "maxProperties
      \<lparr>http_method = ''GET'', query_city = Some ''Tampa'', query_limit = None,
       query_all = Some ''true'', query_format = None\<rparr> = of_nat 10"
    by (simp add: maxProperties_absent)
  from scrape_v2_all_count [OF c _ _ m, of 0] obtain ps where
    "scrape_v2 (fixed_env (1 / 2))
       \<lparr>http_method = ''GET'', query_city = Some ''Tampa'', query_limit = None,
        query_all = Some ''true'', query_format = None\<rparr> 0
     = render \<lparr>http_method = ''GET'', query_city = Some ''Tampa'', query_limit = None,
        query_all = Some ''true'', query_format = None\<rparr> ps"
    "length ps = 15 * 10"
    by auto
  then show ?thesis
    by (simp add: render_json envelope_count_def envelope_city_def or_else_def)
qed





text \<open>
  Claim C10. For every string \<open>city\<close> and every negative integer \<open>count\<close>,
  \<open>generateProperties(city, count)\<close> returns the empty sequence and does not
  throw, since the body of the loop never runs. So a negative limit, such as
  \<open>limit=-5\<close>, which \<open>parseInt\<close> accepts, is answered 200 with the count 0
  and no properties, not with an error.
\<close>

theorem negative_count_is_empty:
  "(k < 0 \<longrightarrow> generateProperties e c (Some (Num (of_int k))) w = Inr ([], w))
   \<and> parseInt ''-5'' = Num (- 5)
   \<and> (\<forall>l j. http_method req = ''GET'' \<and> query_limit req = Some l
          \<and> parseInt l = Num (of_int j) \<and> j < 0
          \<and> query_format req \<noteq> Some ''csv''
          \<and> (query_all req = Some ''true'' \<or> (\<exists>c'. query_city req = Some c' \<and> c' \<noteq> []))
        \<longrightarrow> scrape_v2 e req w =
              \<lparr>status = 200, headers = cors,
               body = SuccessJson True 0 (or_else (query_city req) ''all'') []\<rparr>)"
proof (intro conjI allI impI)
  assume "k < 0"
  then show "generateProperties e c (Some (Num (of_int k))) w = Inr ([], w)"
    by (intro generateProperties_none) simp
next
  show "parseInt ''-5'' = Num (- 5)" by (rule parseInt_minus_5)
next
  fix l j
  assume a: "http_method req = ''GET'' \<and> query_limit req = Some l
          \<and> parseInt l = Num (of_int j) \<and> j < 0
          \<and> query_format req \<noteq> Some ''csv''
          \<and> (query_all req = Some ''true'' \<or> (\<exists>c'. query_city req = Some c' \<and> c' \<noteq> []))"
  then have m: "maxProperties req = of_int j" by (simp add: maxProperties_present)
  have neg: "rat_of_int j \<le> 0" using a by simp
  show "scrape_v2 e req w =
              \<lparr>status = 200, headers = cors,
               body = SuccessJson True 0 (or_else (query_city req) ''all'') []\<rparr>"
  proof (cases "query_all req = Some ''true''")
    case True
    then show ?thesis
      using a by (simp add: scrape_v2_all m all_cities_none [OF neg] render_json)
  next
    case False
    with a obtain c' where c': "query_city req = Some c'" "c' \<noteq> []" by blast
    show ?thesis
      using a False c'
      by (simp add: scrape_v2_single m generateProperties_none [OF neg] render_json)
  qed
qed

theorem negative_count_is_empty_witness:
  "(- 5::int) < 0
   \<and> generateProperties (fixed_env (1 / 2)) ''Orlando'' (Some (Num (of_int (- 5)))) 0 = Inr ([], 0)
   \<and> parseInt ''-5'' = Num (of_int (- 5))
   \<and> scrape_v2 (fixed_env (1 / 2))
        \<lparr>http_method = ''GET'', query_city = Some ''Orlando'', query_limit = Some ''-5'',
         query_all = None, query_format = None\<rparr> 0 =
       \<lparr>status = 200, headers = cors, body = SuccessJson True 0 ''Orlando'' []\<rparr>"
proof -
  let ?r = "\<lparr>http_method = ''GET'', query_city = Some ''Orlando'', query_limit = Some ''-5'',
         query_all = None, query_format = None\<rparr>"
  have p: "parseInt ''-5'' = Num (of_int (- 5))" by (simp add: parseInt_minus_5)
  note t = negative_count_is_empty [of "- 5" "fixed_env (1 / 2)" "''Orlando''" 0 ?r]
  from t have A: "generateProperties (fixed_env (1 / 2)) ''Orlando'' (Some (Num (of_int (- 5)))) 0
      = Inr ([], 0)" by simp
  from t have "\<forall>l j. http_method ?r = ''GET'' \<and> query_limit ?r = Some l
          \<and> parseInt l = Num (of_int j) \<and> j < 0
          \<and> query_format ?r \<noteq> Some ''csv''
          \<and> (query_all ?r = Some ''true'' \<or> (\<exists>c'. query_city ?r = Some c' \<and> c' \<noteq> []))
        \<longrightarrow> scrape_v2 (fixed_env (1 / 2)) ?r 0 =
              \<lparr>status = 200, headers = cors,
               body = SuccessJson True 0 (or_else (query_city ?r) ''all'') []\<rparr>"
    by blast
  from this [rule_format, of "''-5''" "- 5"] p
  have B: "scrape_v2 (fixed_env (1 / 2)) ?r 0 =
       \<lparr>status = 200, headers = cors, body = SuccessJson True 0 ''Orlando'' []\<rparr>"
    by (simp add: or_else_def)
  show ?thesis using A B p by simp
qed

end
